theory Spec2Isabelle
  imports Main "HOL-Library.AList" "HOL-Library.Sublist"
begin

section \<open>The wallet store of rpcwallet.py\<close>

text \<open>
  A shallow embedding of the class \<open>Wallet\<close> of \<open>RPCServer/rpcwallet.py\<close>. Every
  method takes the wallet object and the file system and returns its result together
  with both, updated; a raised exception is the \<open>Inl\<close> result, and the state returned
  with it holds whatever the method had already done when it raised.

  Python names that start with an underscore are written with the prefix \<open>p_\<close>
  (\<open>_get_account\<close> is \<open>p_get_account\<close>). Calls of \<open>print\<close> are left out.
\<close>

subsection \<open>Exceptions\<close>

text \<open>
  The three exception classes of the module, and the built-in ones its statements can
  raise: \<open>OSError\<close> (with its subclasses, from \<open>open\<close> and \<open>os.mkdir\<close>),
  \<open>json.JSONDecodeError\<close>, \<open>KeyError\<close> and \<open>IndexError\<close>.
\<close>

datatype error =
    InvalidAccountName
  | InvalidPath
  | UnknownnAddress
  | OSError
  | JSONDecodeError
  | KeyError
  | IndexError

subsection \<open>JSON documents\<close>

text \<open>
  The documents are typed by the three shapes the program writes: an account record
  \<open>{'encrypted': b, 'addresses': [...]}\<close>, whose address entries are lists of strings
  of any length, the primary index \<open>{'version': v, 'encrypted': b}\<close>, and the reverse
  index, a dict from address to account name. A dict is an association list in
  insertion order, as Python keeps it: \<open>AList.update\<close> replaces the value of a key in
  place and appends a new key. What \<open>json.dump\<close> writes is a function of the document
  and \<open>json.load\<close> gives the document back, so a file holds the document itself; a
  file that \<open>json.load\<close> cannot parse is \<open>Unparsable\<close>.
\<close>

type_synonym entry = "string list"

datatype doc =
    AccountDoc bool "entry list"
  | IndexDoc string bool
  | RIndexDoc "(string \<times> string) list"

datatype content = Unparsable | Doc doc

text \<open>
  \<open>account['addresses']\<close>: only an account record has the member (a reverse index
  with an address that is literally \<open>addresses\<close> is not considered).
\<close>

definition getitem_addresses :: "doc \<Rightarrow> error + entry list" where
  "getitem_addresses d =
     (case d of AccountDoc e a \<Rightarrow> Inr a | IndexDoc v e \<Rightarrow> Inl KeyError | RIndexDoc m \<Rightarrow> Inl KeyError)"

subsection \<open>The file system\<close>

text \<open>
  A file system is the list of its directories and files, each under the list of the
  components of its path, in the order in which the directories list them. A path
  string is cut at \<open>/\<close>, empty components dropped (so repeated and trailing slashes
  do not matter); the components \<open>.\<close> and \<open>..\<close> are not interpreted. The empty
  list of components is the directory the paths start from, which always exists.
\<close>

datatype node = Dir | File content

type_synonym filesys = "(string list \<times> node) list"

fun components :: "string \<Rightarrow> string \<Rightarrow> string list" where
  "components cur [] = (if cur = [] then [] else [cur])"
| "components cur (c # cs) =
     (if c = CHR ''/''
      then (if cur = [] then components [] cs else cur # components [] cs)
      else components (cur @ [c]) cs)"

definition resolve :: "string \<Rightarrow> string list" where
  "resolve p = components [] p"

definition lookup :: "filesys \<Rightarrow> string list \<Rightarrow> node option" where
  "lookup fs k = (if k = [] then Some Dir else map_of fs k)"

definition os_path_exists :: "filesys \<Rightarrow> string \<Rightarrow> bool" where
  "os_path_exists fs p =
     (if p = [] then False
      else (case lookup fs (resolve p) of None \<Rightarrow> False | Some n \<Rightarrow> True))"

definition os_path_isfile :: "filesys \<Rightarrow> string \<Rightarrow> bool" where
  "os_path_isfile fs p =
     (case lookup fs (resolve p) of Some (File c) \<Rightarrow> True | Some Dir \<Rightarrow> False | None \<Rightarrow> False)"

text \<open>
  \<open>os.mkdir\<close> raises when the path is empty or exists already, and when its parent
  is not a directory.
\<close>

definition os_mkdir :: "filesys \<Rightarrow> string \<Rightarrow> error + filesys" where
  "os_mkdir fs p =
     (if p = [] then Inl OSError
      else (case lookup fs (resolve p) of
              Some n \<Rightarrow> Inl OSError
            | None \<Rightarrow>
               (case lookup fs (butlast (resolve p)) of
                  Some Dir \<Rightarrow> Inr (fs @ [(resolve p, Dir)])
                | Some (File c) \<Rightarrow> Inl OSError
                | None \<Rightarrow> Inl OSError)))"

text \<open>
  \<open>with open(fname, 'w') as outfile: json.dump(d, outfile)\<close>: an existing file is
  overwritten where it stands, a new one is added to its directory, which has to exist.
\<close>

definition json_dump_file :: "filesys \<Rightarrow> string \<Rightarrow> doc \<Rightarrow> error + filesys" where
  "json_dump_file fs fname d =
     (case lookup fs (resolve fname) of
        Some (File c) \<Rightarrow> Inr (AList.update (resolve fname) (File (Doc d)) fs)
      | Some Dir \<Rightarrow> Inl OSError
      | None \<Rightarrow>
         (case lookup fs (butlast (resolve fname)) of
            Some Dir \<Rightarrow> Inr (AList.update (resolve fname) (File (Doc d)) fs)
          | Some (File c) \<Rightarrow> Inl OSError
          | None \<Rightarrow> Inl OSError))"

text \<open>\<open>with open(fname) as json_file: json.load(json_file)\<close>.\<close>

definition json_load_file :: "filesys \<Rightarrow> string \<Rightarrow> error + doc" where
  "json_load_file fs fname =
     (case lookup fs (resolve fname) of
        Some (File c) \<Rightarrow> (case c of Doc d \<Rightarrow> Inr d | Unparsable \<Rightarrow> Inl JSONDecodeError)
      | Some Dir \<Rightarrow> Inl OSError
      | None \<Rightarrow> Inl OSError)"

subsection \<open>The wallet object\<close>

text \<open>
  The class \<open>Key\<close> of the module \<open>rpckeys\<close> is not part of the sources at hand. The
  wallet calls \<open>generate()\<close> on its key object and reads the properties \<open>address\<close>
  and \<open>as_list\<close>, so a key is that pair, with no relation assumed between the two,
  and the generator is a parameter: \<open>keygen w n\<close> is the key that the \<open>n\<close>-th call of
  \<open>generate()\<close> produces.
\<close>

record Key =
  address :: string
  as_list :: entry

record wallet =
  path :: string
  verbose :: bool
  encrypted :: bool
  locked :: bool
  passphrase :: string
  IV :: string
  index :: "doc option"
  key :: Key
  address_to_account :: "(string \<times> string) list"
  keygen :: "nat \<Rightarrow> Key"
  generated :: nat

type_synonym 'a result = "(error + 'a) \<times> wallet \<times> filesys"

definition version :: string where
  "version = ''0.0.3''"

definition key_generate :: "wallet \<Rightarrow> wallet" where
  "key_generate w = w\<lparr>key := keygen w (generated w), generated := Suc (generated w)\<rparr>"

subsection \<open>Account names\<close>

text \<open>
  The character class of \<open>re.search('[^a-zA-Z0-9\+\/]', account)\<close>. A name that
  passes holds ASCII characters only, so its length in bytes is its length in code
  points; a name with any other character is refused whatever its length.
\<close>

definition b64_charset :: "char \<Rightarrow> bool" where
  "b64_charset c =
     (let n = (of_char c :: nat) in
      (if 97 \<le> n \<and> n \<le> 122 then True
       else if 65 \<le> n \<and> n \<le> 90 then True
       else if 48 \<le> n \<and> n \<le> 57 then True
       else if c = CHR ''+'' then True
       else c = CHR ''/''))"

definition p_check_account_name :: "string \<Rightarrow> error + unit" where
  "p_check_account_name account =
     (if account = [] then Inr ()
      else if length account < 2 then Inl InvalidAccountName
      else if length account > 128 then Inl InvalidAccountName
      else if list_ex (\<lambda>c. \<not> b64_charset c) account then Inl InvalidAccountName
      else Inr ())"

subsection \<open>Index files\<close>

definition p_save_rindex :: "wallet \<Rightarrow> filesys \<Rightarrow> error + filesys" where
  "p_save_rindex w fs =
     json_dump_file fs (path w @ ''/rindex.json'') (RIndexDoc (address_to_account w))"

text \<open>
  \<open>load\<close>. A \<open>rindex.json\<close> that parses to a document of another shape than the
  reverse index is not a dict from strings to strings and has no counterpart in the
  typed wallet; the model takes the empty dict for it, as for a file that fails to load.
\<close>

definition load :: "wallet \<Rightarrow> filesys \<Rightarrow> unit result" where
  "load w fs =
     (let index_fname = path w @ ''/index.json'';
          rindex_fname = path w @ ''/rindex.json''
      in if \<not> os_path_exists fs index_fname then
           (if verbose w then
              (let w1 = w\<lparr>index := Some (IndexDoc version False)\<rparr>
               in case json_dump_file fs index_fname (IndexDoc version False) of
                    Inl e \<Rightarrow> (Inl e, w1, fs)
                  | Inr fs1 \<Rightarrow>
                     (let w2 = w1\<lparr>address_to_account := []\<rparr>
                      in case p_save_rindex w2 fs1 of
                           Inl e \<Rightarrow> (Inl e, w2, fs1)
                         | Inr fs2 \<Rightarrow> (Inr (), w2, fs2)))
            else (Inr (), w, fs))
         else
           (case json_load_file fs index_fname of
              Inl e \<Rightarrow> (Inl e, w, fs)
            | Inr d \<Rightarrow>
               (let w1 = w\<lparr>index := Some d\<rparr>
                in case json_load_file fs rindex_fname of
                     Inr (RIndexDoc m) \<Rightarrow> (Inr (), w1\<lparr>address_to_account := m\<rparr>, fs)
                   | Inr (AccountDoc e a) \<Rightarrow> (Inr (), w1\<lparr>address_to_account := []\<rparr>, fs)
                   | Inr (IndexDoc v e) \<Rightarrow> (Inr (), w1\<lparr>address_to_account := []\<rparr>, fs)
                   | Inl e \<Rightarrow> (Inr (), w1\<lparr>address_to_account := []\<rparr>, fs))))"

text \<open>
  \<open>Wallet.__init__\<close>; \<open>k0\<close> is the state of the fresh \<open>Key\<close> object and \<open>gen\<close> its
  generator.
\<close>

definition Wallet_init :: "string \<Rightarrow> bool \<Rightarrow> Key \<Rightarrow> (nat \<Rightarrow> Key) \<Rightarrow> filesys \<Rightarrow> unit result" where
  "Wallet_init p v k0 gen fs =
     (let w = \<lparr>path = p, verbose = v, encrypted = False, locked = False, passphrase = [],
               IV = replicate 16 (CHR 0x00), index = None, key = k0,
               address_to_account = [], keygen = gen, generated = 0\<rparr>
      in case (if \<not> os_path_exists fs p
               then (if v then os_mkdir fs p else Inr fs)
               else Inr fs) of
           Inl e \<Rightarrow> (Inl e, w, fs)
         | Inr fs1 \<Rightarrow> load w fs1)"

subsection \<open>Account files\<close>

text \<open>
  The directory and the file name that \<open>_get_account\<close> computes from the account
  name: the default account, under both of its names, lives in \<open>default.json\<close> at the
  root, any other account in the directory named by its first two characters.
\<close>

definition p_get_account_paths :: "string \<Rightarrow> string \<Rightarrow> string \<times> string" where
  "p_get_account_paths root account =
     (if [] = account \<or> ''default'' = account
      then (root, root @ ''/default.json'')
      else (let adir = take 2 account;
                path = root @ ''/'' @ adir
            in (path, path @ ''/'' @ account @ ''.json'')))"

text \<open>The same computation as \<open>_save_account\<close> makes it: only the empty name is the default.\<close>

definition p_save_account_paths :: "string \<Rightarrow> string \<Rightarrow> string \<times> string" where
  "p_save_account_paths root account =
     (if [] = account
      then (root, root @ ''/default.json'')
      else (let adir = take 2 account;
                path = root @ ''/'' @ adir
            in (path, path @ ''/'' @ account @ ''.json'')))"

text \<open>\<open>if not os.path.exists(path): os.mkdir(path)\<close>.\<close>

definition ensure_dir :: "filesys \<Rightarrow> string \<Rightarrow> error + filesys" where
  "ensure_dir fs p = (if \<not> os_path_exists fs p then os_mkdir fs p else Inr fs)"

definition p_get_account :: "wallet \<Rightarrow> filesys \<Rightarrow> string \<Rightarrow> doc result" where
  "p_get_account w fs account =
     (case p_check_account_name account of
        Inl e \<Rightarrow> (Inl e, w, fs)
      | Inr u \<Rightarrow>
         (let dir = fst (p_get_account_paths (path w) account);
              fname = snd (p_get_account_paths (path w) account)
          in if \<not> os_path_isfile fs fname then
               (let w1 = key_generate w;
                    res = AccountDoc False [as_list (key w1)]
                in case ensure_dir fs dir of
                     Inl e \<Rightarrow> (Inl e, w1, fs)
                   | Inr fs1 \<Rightarrow>
                      (case json_dump_file fs1 fname res of
                         Inl e \<Rightarrow> (Inl e, w1, fs1)
                       | Inr fs2 \<Rightarrow>
                          (let w2 = w1\<lparr>address_to_account :=
                                 AList.update (address (key w1)) account (address_to_account w1)\<rparr>
                           in case p_save_rindex w2 fs2 of
                                Inl e \<Rightarrow> (Inl e, w2, fs2)
                              | Inr fs3 \<Rightarrow> (Inr res, w2, fs3))))
             else
               (case json_load_file fs fname of
                  Inl e \<Rightarrow> (Inl e, w, fs)
                | Inr res \<Rightarrow> (Inr res, w, fs))))"

definition p_save_account :: "wallet \<Rightarrow> filesys \<Rightarrow> doc \<Rightarrow> string \<Rightarrow> bool result" where
  "p_save_account w fs account_dict account =
     (case p_check_account_name account of
        Inl e \<Rightarrow> (Inl e, w, fs)
      | Inr u \<Rightarrow>
         (let dir = fst (p_save_account_paths (path w) account);
              fname = snd (p_save_account_paths (path w) account)
          in case ensure_dir fs dir of
               Inl e \<Rightarrow> (Inl e, w, fs)
             | Inr fs1 \<Rightarrow>
                (case json_dump_file fs1 fname account_dict of
                   Inl e \<Rightarrow> (Inl e, w, fs1)
                 | Inr fs2 \<Rightarrow> (Inr True, w, fs2))))"

subsection \<open>Public operations\<close>

text \<open>\<open>xs[0]\<close> raises \<open>IndexError\<close> on an empty list.\<close>

definition getitem0 :: "'a list \<Rightarrow> error + 'a" where
  "getitem0 xs = (case xs of [] \<Rightarrow> Inl IndexError | x # r \<Rightarrow> Inr x)"

definition get_account_address :: "wallet \<Rightarrow> filesys \<Rightarrow> string \<Rightarrow> string result" where
  "get_account_address w fs anaccount =
     (case p_get_account w fs anaccount of
        (Inl e, w1, fs1) \<Rightarrow> (Inl e, w1, fs1)
      | (Inr account, w1, fs1) \<Rightarrow>
         (case getitem_addresses account of
            Inl e \<Rightarrow> (Inl e, w1, fs1)
          | Inr a \<Rightarrow>
             (case getitem0 a of
                Inl e \<Rightarrow> (Inl e, w1, fs1)
              | Inr addresses \<Rightarrow>
                 (case getitem0 addresses of
                    Inl e \<Rightarrow> (Inl e, w1, fs1)
                  | Inr x \<Rightarrow> (Inr x, w1, fs1)))))"

text \<open>\<open>get_account\<close>: the lookup in the reverse index; it touches neither state.\<close>

definition get_account :: "wallet \<Rightarrow> string \<Rightarrow> error + string" where
  "get_account w addr =
     (case map_of (address_to_account w) addr of
        Some account \<Rightarrow> Inr account
      | None \<Rightarrow> Inl UnknownnAddress)"

text \<open>
  The loop of \<open>_get_keys_for_address\<close>: the first entry whose element 0 is the
  address; \<open>None\<close> when the loop ends without one or \<open>keys[0]\<close> raises on an empty
  entry.
\<close>

fun find_keys :: "entry list \<Rightarrow> string \<Rightarrow> entry option" where
  "find_keys [] addr = None"
| "find_keys (keys # rest) addr =
     (case keys of
        [] \<Rightarrow> None
      | x # r \<Rightarrow> (if x = addr then Some keys else find_keys rest addr))"

text \<open>
  Every exception inside the \<open>try\<close> of \<open>_get_keys_for_address\<close> becomes
  \<open>UnknownnAddress\<close>; what \<open>_get_account\<close> wrote before raising stays written.
\<close>

definition p_get_keys_for_address :: "wallet \<Rightarrow> filesys \<Rightarrow> string \<Rightarrow> entry result" where
  "p_get_keys_for_address w fs addr =
     (case map_of (address_to_account w) addr of
        None \<Rightarrow> (Inl UnknownnAddress, w, fs)
      | Some name \<Rightarrow>
         (case p_get_account w fs name of
            (Inl e, w1, fs1) \<Rightarrow> (Inl UnknownnAddress, w1, fs1)
          | (Inr account, w1, fs1) \<Rightarrow>
             (case getitem_addresses account of
                Inl e \<Rightarrow> (Inl UnknownnAddress, w1, fs1)
              | Inr a \<Rightarrow>
                 (case find_keys a addr of
                    None \<Rightarrow> (Inl UnknownnAddress, w1, fs1)
                  | Some keys \<Rightarrow> (Inr keys, w1, fs1)))))"

text \<open>\<open>keys[2]\<close>, outside any \<open>try\<close>.\<close>

definition getitem2 :: "'a list \<Rightarrow> error + 'a" where
  "getitem2 xs = (if length xs > 2 then Inr (xs ! 2) else Inl IndexError)"

definition dump_privkey :: "wallet \<Rightarrow> filesys \<Rightarrow> string \<Rightarrow> string result" where
  "dump_privkey w fs addr =
     (case p_get_keys_for_address w fs addr of
        (Inl e, w1, fs1) \<Rightarrow> (Inl e, w1, fs1)
      | (Inr keys, w1, fs1) \<Rightarrow>
         (case getitem2 keys of
            Inl e \<Rightarrow> (Inl e, w1, fs1)
          | Inr k \<Rightarrow> (Inr k, w1, fs1)))"

definition get_new_address :: "wallet \<Rightarrow> filesys \<Rightarrow> string \<Rightarrow> string result" where
  "get_new_address w fs anaccount =
     (case p_get_account w fs anaccount of
        (Inl e, w1, fs1) \<Rightarrow> (Inl e, w1, fs1)
      | (Inr account_dict, w1, fs1) \<Rightarrow>
         (let w2 = key_generate w1
          in case account_dict of
               IndexDoc v e \<Rightarrow> (Inl KeyError, w2, fs1)
             | RIndexDoc m \<Rightarrow> (Inl KeyError, w2, fs1)
             | AccountDoc e a \<Rightarrow>
                (case p_save_account w2 fs1 (AccountDoc e (a @ [as_list (key w2)])) anaccount of
                   (Inl e, w3, fs2) \<Rightarrow> (Inl e, w3, fs2)
                 | (Inr b, w3, fs2) \<Rightarrow>
                    (let w4 = w3\<lparr>address_to_account :=
                           AList.update (address (key w3)) anaccount (address_to_account w3)\<rparr>
                     in case p_save_rindex w4 fs2 of
                          Inl e \<Rightarrow> (Inl e, w4, fs2)
                        | Inr fs3 \<Rightarrow> (Inr (address (key w4)), w4, fs3)))))"

text \<open>
  \<open>[address[0] for address in account['addresses']]\<close>: the first empty entry raises
  \<open>IndexError\<close>.
\<close>

fun first_elements :: "entry list \<Rightarrow> error + string list" where
  "first_elements [] = Inr []"
| "first_elements (a # rest) =
     (case a of
        [] \<Rightarrow> Inl IndexError
      | x # r \<Rightarrow> (case first_elements rest of Inl e \<Rightarrow> Inl e | Inr xs \<Rightarrow> Inr (x # xs)))"

definition get_addresses_by_account :: "wallet \<Rightarrow> filesys \<Rightarrow> string \<Rightarrow> string list result" where
  "get_addresses_by_account w fs anaccount =
     (case p_get_account w fs anaccount of
        (Inl e, w1, fs1) \<Rightarrow> (Inl e, w1, fs1)
      | (Inr account, w1, fs1) \<Rightarrow>
         (case getitem_addresses account of
            Inl e \<Rightarrow> (Inl e, w1, fs1)
          | Inr a \<Rightarrow>
             (case first_elements a of
                Inl e \<Rightarrow> (Inl e, w1, fs1)
              | Inr xs \<Rightarrow> (Inr xs, w1, fs1))))"

subsection \<open>Walking the account files\<close>

text \<open>
  \<open>os.walk\<close> visits a directory, then its subdirectories in the order the directory
  lists them, and gives the names of the files of each. \<open>direct_files\<close> and
  \<open>direct_dirs\<close> are the files and subdirectories of one directory.
\<close>

definition direct_files :: "filesys \<Rightarrow> string list \<Rightarrow> (string \<times> content) list" where
  "direct_files fs d =
     List.map_filter
       (\<lambda>e. case snd e of
              File c \<Rightarrow> (if fst e \<noteq> [] \<and> butlast (fst e) = d then Some (last (fst e), c) else None)
            | Dir \<Rightarrow> None) fs"

definition direct_dirs :: "filesys \<Rightarrow> string list \<Rightarrow> string list" where
  "direct_dirs fs d =
     List.map_filter
       (\<lambda>e. case snd e of
              Dir \<Rightarrow> (if fst e \<noteq> [] \<and> butlast (fst e) = d then Some (last (fst e)) else None)
            | File c \<Rightarrow> None) fs"

function walk :: "filesys \<Rightarrow> string list \<Rightarrow> (string \<times> content) list" where
  "walk fs d = direct_files fs d @ concat (map (\<lambda>n. walk fs (d @ [n])) (direct_dirs fs d))"
  by pat_completeness auto
termination
proof (relation "measure (\<lambda>(fs, d). length (filter (\<lambda>e. strict_prefix d (fst e)) fs))")
  show "wf (measure (\<lambda>(fs, d). length (filter (\<lambda>e. strict_prefix d (fst e)) fs)))"
    by simp
next
  fix fs :: filesys and d :: "string list" and n :: string
  assume n: "n \<in> set (direct_dirs fs d)"
  have fewer: "length (filter P xs) < length (filter Q xs)"
    if "\<And>x. x \<in> set xs \<Longrightarrow> P x \<Longrightarrow> Q x" and "y \<in> set xs" and "Q y" and "\<not> P y"
    for P Q :: "string list \<times> node \<Rightarrow> bool" and xs y
    using that
  proof (induction xs)
    case Nil
    then show ?case by simp
  next
    case (Cons x xs)
    have "filter P xs = filter P (filter Q xs)"
      using Cons.prems(1) by (auto intro!: filter_cong)
    then have le: "length (filter P xs) \<le> length (filter Q xs)"
      by (metis length_filter_le)
    show ?case
    proof (cases "y = x")
      case True
      then show ?thesis using Cons.prems le by simp
    next
      case False
      then have "length (filter P xs) < length (filter Q xs)"
        using Cons by auto
      then show ?thesis using Cons.prems(1)[of x] by auto
    qed
  qed
  from n obtain e where e: "e \<in> set fs" "snd e = Dir" "fst e \<noteq> []"
      "butlast (fst e) = d" "last (fst e) = n"
    by (auto simp: direct_dirs_def List.map_filter_def split: node.splits if_splits)
  then have "fst e = d @ [n]"
    by (metis append_butlast_last_id)
  with e have mem: "(d @ [n], Dir) \<in> set fs"
    by (metis prod.collapse)
  have "length (filter (\<lambda>e. strict_prefix (d @ [n]) (fst e)) fs)
        < length (filter (\<lambda>e. strict_prefix d (fst e)) fs)"
  proof (rule fewer [where y = "(d @ [n], Dir)"])
    fix x :: "string list \<times> node"
    assume "strict_prefix (d @ [n]) (fst x)"
    then show "strict_prefix d (fst x)"
      by (metis prefix_order.dual_order.strict_trans strict_prefixI')
  qed (use mem in \<open>simp_all add: strict_prefix_def\<close>)
  then show "((fs, d @ [n]), (fs, d))
      \<in> measure (\<lambda>(fs, d). length (filter (\<lambda>e. strict_prefix d (fst e)) fs))"
    by simp
qed

declare walk.simps [simp del]

text \<open>\<open>os.walk(start)\<close> gives nothing when \<open>start\<close> is not a directory.\<close>

definition os_walk_files :: "filesys \<Rightarrow> string \<Rightarrow> (string \<times> content) list" where
  "os_walk_files fs start =
     (if start = [] then []
      else (case lookup fs (resolve start) of
              Some Dir \<Rightarrow> walk fs (resolve start)
            | Some (File c) \<Rightarrow> []
            | None \<Rightarrow> []))"

text \<open>
  \<open>os.path.splitext\<close> on a file name: the extension starts at the last dot, unless
  only dots come before it. \<open>lower\<close> is \<open>str.lower\<close> on ASCII; no other character
  is lowered to a letter of \<open>.json\<close>, \<open>index.json\<close> or \<open>rindex.json\<close>.
\<close>

definition splitext :: "string \<Rightarrow> string \<times> string" where
  "splitext p =
     (let r = rev p;
          ext = rev (takeWhile (\<lambda>c. c \<noteq> CHR ''.'') r)
      in case dropWhile (\<lambda>c. c \<noteq> CHR ''.'') r of
           [] \<Rightarrow> (p, [])
         | dot # stem \<Rightarrow>
            (if list_ex (\<lambda>c. c \<noteq> CHR ''.'') stem then (rev stem, dot # ext) else (p, [])))"

definition lower_char :: "char \<Rightarrow> char" where
  "lower_char c =
     (let n = (of_char c :: nat) in if 65 \<le> n \<and> n \<le> 90 then char_of (n + 32) else c)"

definition lower :: "string \<Rightarrow> string" where
  "lower s = map lower_char s"

text \<open>
  The body of the loop of \<open>_parse_accounts\<close> for one file: \<open>None\<close> when the file is
  passed over, the pair it yields otherwise.
  One flag says whether a file parses: a file that starts with a byte order mark, which
  \<open>_parse_accounts\<close> reads and \<open>json.load\<close> in the other methods refuses, is not
  modelled.
\<close>

definition parse_file :: "string \<times> content \<Rightarrow> (string \<times> doc) option" where
  "parse_file f =
     (let afile = fst f;
          ext = lower (snd (splitext afile))
      in if ext \<noteq> ''.json'' then None
         else if lower afile = ''index.json'' then None
         else if lower afile = ''rindex.json'' then None
         else (case snd f of
                 Unparsable \<Rightarrow> None
               | Doc res \<Rightarrow>
                  (let account = fst (splitext afile)
                   in if ''default'' = account then Some ([], res) else Some (account, res))))"

definition p_parse_accounts :: "wallet \<Rightarrow> filesys \<Rightarrow> (string \<times> doc) list" where
  "p_parse_accounts w fs = List.map_filter parse_file (os_walk_files fs (path w))"

text \<open>
  The inner loop of \<open>reindex\<close> over the entries of one account: \<open>address[0]\<close> raises
  on an empty entry, which ends the loop for this account (\<open>except: pass\<close>) with the
  entries before it registered.
\<close>

fun register_addresses :: "(string \<times> string) list \<Rightarrow> string \<Rightarrow> entry list \<Rightarrow> (string \<times> string) list" where
  "register_addresses m account_name [] = m"
| "register_addresses m account_name (a # rest) =
     (case a of
        [] \<Rightarrow> m
      | x # r \<Rightarrow> register_addresses (AList.update x account_name m) account_name rest)"

definition reindex_account :: "(string \<times> string) list \<Rightarrow> string \<times> doc \<Rightarrow> (string \<times> string) list" where
  "reindex_account m acc =
     (case getitem_addresses (snd acc) of
        Inl e \<Rightarrow> m
      | Inr a \<Rightarrow> register_addresses m (fst acc) a)"

definition reindex :: "wallet \<Rightarrow> filesys \<Rightarrow> bool result" where
  "reindex w fs =
     (let w1 = w\<lparr>address_to_account := []\<rparr>;
          w2 = w1\<lparr>address_to_account :=
                 foldl reindex_account (address_to_account w1) (p_parse_accounts w1 fs)\<rparr>
      in case p_save_rindex w2 fs of
           Inl e \<Rightarrow> (Inl e, w2, fs)
         | Inr fs1 \<Rightarrow> (Inr True, w2, fs1))"

subsection \<open>Example stores\<close>

text \<open>
  A key generator, a wallet object and some stores under the root \<open>w\<close>, on which the
  theorems below are run.
\<close>

definition demo_keygen :: "nat \<Rightarrow> Key" where
  "demo_keygen n =
     (if n = 0 then \<lparr>address = ''A0'', as_list = [''A0'', ''P0'', ''Q0'']\<rparr>
      else if n = 1 then \<lparr>address = ''A1'', as_list = [''A1'', ''P1'', ''Q1'']\<rparr>
      else \<lparr>address = ''A2'', as_list = [''A2'', ''P2'', ''Q2'']\<rparr>)"

definition demo_key :: Key where
  "demo_key = \<lparr>address = [], as_list = []\<rparr>"

definition demo_wallet :: wallet where
  "demo_wallet =
     \<lparr>path = ''w'', verbose = False, encrypted = False, locked = False, passphrase = [],
      IV = replicate 16 (CHR 0x00), index = Some (IndexDoc version False), key = demo_key,
      address_to_account = [], keygen = demo_keygen, generated = 0\<rparr>"

definition demo_fs :: filesys where
  "demo_fs =
     [([''w''], Dir),
      ([''w'', ''index.json''], File (Doc (IndexDoc version False))),
      ([''w'', ''rindex.json''], File (Doc (RIndexDoc [])))]"

text \<open>A store whose default account holds one address, and the wallet object loaded from it.\<close>

definition demo_fs_default :: filesys where
  "demo_fs_default =
     [([''w''], Dir),
      ([''w'', ''index.json''], File (Doc (IndexDoc version False))),
      ([''w'', ''rindex.json''], File (Doc (RIndexDoc [(''A9'', [])]))),
      ([''w'', ''default.json''], File (Doc (AccountDoc False [[''A9'', ''P9'', ''Q9'']])))]"

definition demo_wallet_default :: wallet where
  "demo_wallet_default = demo_wallet\<lparr>address_to_account := [(''A9'', [])]\<rparr>"

subsection \<open>The invariant of the reverse index\<close>

text \<open>
  The addresses that the account records of a store hold: element 0 of every entry of
  every file with an account record. The invariant says that every key of the reverse
  index of the wallet object is one of them.
\<close>

definition entry_addresses :: "entry list \<Rightarrow> string list" where
  "entry_addresses a = concat (map (\<lambda>keys. take 1 keys) a)"

definition file_addresses :: "filesys \<Rightarrow> string list" where
  "file_addresses fs =
     concat (map (\<lambda>f. case snd f of
                         File (Doc (AccountDoc e a)) \<Rightarrow> entry_addresses a
                       | File (Doc (IndexDoc v e)) \<Rightarrow> []
                       | File (Doc (RIndexDoc m)) \<Rightarrow> []
                       | File Unparsable \<Rightarrow> []
                       | Dir \<Rightarrow> []) fs)"

definition rindex_invariant :: "wallet \<Rightarrow> filesys \<Rightarrow> bool" where
  "rindex_invariant w fs =
     list_all (\<lambda>addr. addr \<in> set (file_addresses fs)) (map fst (address_to_account w))"

subsection \<open>The entry layout of the specification\<close>

text \<open>
  Modelled from the spec: the class \<open>Key\<close>, whose \<open>as_list\<close> fixes the layout of an
  address entry, is missing from the sources; the specification gives the entry as the
  triple \<open>[address, private_key, public_key]\<close>.
\<close>

definition entry_private_key :: "entry \<Rightarrow> string" where
  "entry_private_key keys = keys ! 1"

definition entry_public_key :: "entry \<Rightarrow> string" where
  "entry_public_key keys = keys ! 2"

text \<open>
  A store whose default account record has an empty list of addresses, and a store with
  \<open>index.json\<close> and an account file but no \<open>rindex.json\<close>.
\<close>

definition demo_fs_empty_account :: filesys where
  "demo_fs_empty_account =
     [([''w''], Dir),
      ([''w'', ''index.json''], File (Doc (IndexDoc version False))),
      ([''w'', ''rindex.json''], File (Doc (RIndexDoc []))),
      ([''w'', ''default.json''], File (Doc (AccountDoc False [])))]"

definition demo_fs_no_rindex :: filesys where
  "demo_fs_no_rindex =
     [([''w''], Dir),
      ([''w'', ''index.json''], File (Doc (IndexDoc version False))),
      ([''w'', ''default.json''], File (Doc (AccountDoc False [[''A9'', ''P9'', ''Q9'']])))]"

text \<open>
  A store with the default account and the account \<open>AbCdEf12\<close> in its shard
  directory, whose \<open>rindex.json\<close> is out of date.
\<close>

definition demo_fs_two :: filesys where
  "demo_fs_two =
     [([''w''], Dir),
      ([''w'', ''index.json''], File (Doc (IndexDoc version False))),
      ([''w'', ''rindex.json''], File (Doc (RIndexDoc []))),
      ([''w'', ''Ab''], Dir),
      ([''w'', ''default.json''], File (Doc (AccountDoc False [[''A9'', ''P9'', ''Q9'']]))),
      ([''w'', ''Ab'', ''AbCdEf12.json''],
       File (Doc (AccountDoc False [[''B1'', ''P1'', ''Q1''], [''B2'', ''P2'', ''Q2'']])))]"

definition demo_fs_two_reindexed :: filesys where
  "demo_fs_two_reindexed =
     [([''w''], Dir),
      ([''w'', ''index.json''], File (Doc (IndexDoc version False))),
      ([''w'', ''rindex.json''],
       File (Doc (RIndexDoc [(''A9'', []), (''B1'', ''AbCdEf12''), (''B2'', ''AbCdEf12'')]))),
      ([''w'', ''Ab''], Dir),
      ([''w'', ''default.json''], File (Doc (AccountDoc False [[''A9'', ''P9'', ''Q9'']]))),
      ([''w'', ''Ab'', ''AbCdEf12.json''],
       File (Doc (AccountDoc False [[''B1'', ''P1'', ''Q1''], [''B2'', ''P2'', ''Q2'']])))]"

text \<open>
  A store whose default account record holds three entries, two of them for the
  address \<open>A9\<close>; a store whose \<open>index.json\<close> does not parse; and a store with the
  account \<open>index\<close>, whose file is \<open>w/in/index.json\<close>.
\<close>

definition demo_fs_keys :: filesys where
  "demo_fs_keys =
     [([''w''], Dir),
      ([''w'', ''index.json''], File (Doc (IndexDoc version False))),
      ([''w'', ''rindex.json''], File (Doc (RIndexDoc [(''A9'', [])]))),
      ([''w'', ''default.json''],
       File (Doc (AccountDoc False
         [[''B1'', ''P1'', ''Q1''], [''A9'', ''P9'', ''Q9''], [''A9'', ''PX'', ''QX'']])))]"

definition demo_fs_bad_index :: filesys where
  "demo_fs_bad_index =
     [([''w''], Dir),
      ([''w'', ''index.json''], File Unparsable),
      ([''w'', ''default.json''], File (Doc (AccountDoc False [[''A9'', ''P9'', ''Q9'']])))]"

definition demo_fs_index_account :: filesys where
  "demo_fs_index_account =
     [([''w''], Dir),
      ([''w'', ''index.json''], File (Doc (IndexDoc version False))),
      ([''w'', ''in''], Dir),
      ([''w'', ''in'', ''index.json''], File (Doc (AccountDoc False [[''I1'', ''P1'', ''Q1'']])))]"

section \<open>Properties\<close>

subsection \<open>Invalid account names\<close>

lemma invalid_name_check:
  assumes "length account = 1 \<or> length account > 128 \<or> (\<exists>c \<in> set account. \<not> b64_charset c)"
  shows "p_check_account_name account = Inl InvalidAccountName"
proof -
  from assms have "account \<noteq> []" by auto
  moreover from assms have "length account < 2 \<or> length account > 128
      \<or> list_ex (\<lambda>c. \<not> b64_charset c) account"
    by (auto simp: list_ex_iff)
  ultimately show ?thesis
    by (auto simp: p_check_account_name_def)
qed

text \<open>
  C5. For an account name of length 1, of length above 128, or with a character outside
  the base64 character set, each of \<open>get_account_address\<close>, \<open>get_new_address\<close>,
  \<open>get_addresses_by_account\<close> and \<open>_save_account\<close> raises \<open>InvalidAccountName\<close>
  and leaves the wallet object and the file system as they were.
\<close>

theorem invalid_account_name_no_mutation:
  assumes "length account = 1 \<or> length account > 128 \<or> (\<exists>c \<in> set account. \<not> b64_charset c)"
  shows "get_account_address w fs account = (Inl InvalidAccountName, w, fs)
       \<and> get_new_address w fs account = (Inl InvalidAccountName, w, fs)
       \<and> get_addresses_by_account w fs account = (Inl InvalidAccountName, w, fs)
       \<and> p_save_account w fs d account = (Inl InvalidAccountName, w, fs)"
proof -
  have c: "p_check_account_name account = Inl InvalidAccountName"
    using assms by (rule invalid_name_check)
  then have g: "p_get_account w fs account = (Inl InvalidAccountName, w, fs)"
    by (simp add: p_get_account_def)
  show ?thesis
    using c g
    by (simp add: get_account_address_def get_new_address_def get_addresses_by_account_def
        p_save_account_def)
qed

theorem invalid_account_name_no_mutation_witness:
  "(length ''a.b'' = 1 \<or> length ''a.b'' > 128 \<or> (\<exists>c \<in> set ''a.b''. \<not> b64_charset c))
   \<and> get_account_address demo_wallet demo_fs ''a.b'' = (Inl InvalidAccountName, demo_wallet, demo_fs)
   \<and> get_new_address demo_wallet demo_fs ''a.b'' = (Inl InvalidAccountName, demo_wallet, demo_fs)
   \<and> get_addresses_by_account demo_wallet demo_fs ''a.b'' = (Inl InvalidAccountName, demo_wallet, demo_fs)
   \<and> p_save_account demo_wallet demo_fs (AccountDoc False []) ''a.b''
       = (Inl InvalidAccountName, demo_wallet, demo_fs)"
proof -
  have h: "length ''a.b'' = 1 \<or> length ''a.b'' > 128 \<or> (\<exists>c \<in> set ''a.b''. \<not> b64_charset c)"
    by (simp add: b64_charset_def)
  show ?thesis
    using h invalid_account_name_no_mutation [OF h, of demo_wallet demo_fs "AccountDoc False []"]
    by simp
qed

subsection \<open>Paths derived from account names\<close>

lemma components_slash:
  "components cur (a @ CHR ''/'' # b) = components cur a @ components [] b"
  by (induction a arbitrary: cur) auto

lemma components_no_slash:
  "CHR ''/'' \<notin> set t \<Longrightarrow> components cur t = (if cur @ t = [] then [] else [cur @ t])"
  by (induction t arbitrary: cur) auto

lemma components_chars:
  "c \<in> set (components cur s) \<Longrightarrow> c \<noteq> [] \<and> set c \<subseteq> set cur \<union> set s"
proof (induction s arbitrary: cur)
  case Nil
  then show ?case by (auto split: if_splits)
next
  case (Cons x s)
  show ?case
  proof (cases "x = CHR ''/''")
    case True
    with Cons.prems have "c = cur \<and> cur \<noteq> [] \<or> c \<in> set (components [] s)"
      by (auto split: if_splits)
    then show ?thesis using Cons.IH[of "[]"] by auto
  next
    case False
    with Cons.prems have "c \<in> set (components (cur @ [x]) s)" by simp
    then show ?thesis using Cons.IH[of "cur @ [x]"] by auto
  qed
qed

lemma components_suffix:
  "CHR ''/'' \<notin> set t \<Longrightarrow> t \<noteq> [] \<Longrightarrow> c \<in> set (components cur (s @ t)) \<Longrightarrow>
   c \<in> set (components cur s) \<or> (\<exists>pre. c = pre @ t)"
proof (induction s arbitrary: cur)
  case Nil
  then show ?case by (auto simp: components_no_slash)
next
  case (Cons x s)
  show ?case
  proof (cases "x = CHR ''/''")
    case True
    with Cons.prems(3) have "c = cur \<and> cur \<noteq> [] \<or> c \<in> set (components [] (s @ t))"
      by (auto split: if_splits)
    then show ?thesis using Cons.IH[OF Cons.prems(1,2), of "[]"] True by auto
  next
    case False
    with Cons.prems(3) have "c \<in> set (components (cur @ [x]) (s @ t))" by simp
    then show ?thesis using Cons.IH[OF Cons.prems(1,2), of "cur @ [x]"] False by auto
  qed
qed

lemma components_suffix_nonempty:
  "CHR ''/'' \<notin> set t \<Longrightarrow> t \<noteq> [] \<Longrightarrow> components cur (s @ t) \<noteq> []"
  by (induction s arbitrary: cur) (auto simp: components_no_slash)

lemma resolve_slash: "resolve (a @ CHR ''/'' # b) = resolve a @ resolve b"
  by (simp add: resolve_def components_slash)

lemma checked_name_chars:
  assumes "p_check_account_name account = Inr ()"
  shows "\<forall>c \<in> set account. b64_charset c"
  using assms by (auto simp: p_check_account_name_def list_ex_iff split: if_splits)

lemma dot_not_b64: "\<not> b64_charset (CHR ''.'')"
  by (simp add: b64_charset_def)

lemma account_components_no_dots:
  assumes ok: "\<forall>c \<in> set account. b64_charset c" and ne: "account \<noteq> []"
  shows "resolve (take 2 account @ CHR ''/'' # account @ ''.json'') \<noteq> []"
    and "''.'' \<notin> set (resolve (take 2 account @ CHR ''/'' # account @ ''.json''))"
    and "''..'' \<notin> set (resolve (take 2 account @ CHR ''/'' # account @ ''.json''))"
proof -
  have nodot: "CHR ''.'' \<notin> set account"
    using ok dot_not_b64 by auto
  have split: "resolve (take 2 account @ CHR ''/'' # account @ ''.json'')
      = resolve (take 2 account) @ resolve (account @ ''.json'')"
    by (rule resolve_slash)
  have a: "c \<noteq> ''.'' \<and> c \<noteq> ''..''" if "c \<in> set (resolve (take 2 account))" for c
  proof -
    from that have "c \<noteq> [] \<and> set c \<subseteq> set (take 2 account)"
      using components_chars[of c "[]" "take 2 account"] by (simp add: resolve_def)
    moreover have "set (take 2 account) \<subseteq> set account" by (rule set_take_subset)
    ultimately have "CHR ''.'' \<notin> set c" using nodot by auto
    then show ?thesis by auto
  qed
  have b: "c \<noteq> ''.'' \<and> c \<noteq> ''..''" if "c \<in> set (resolve (account @ ''.json''))" for c
  proof -
    from that have "c \<in> set (components [] account) \<or> (\<exists>pre. c = pre @ ''.json'')"
      using components_suffix[of "''.json''" c "[]" account] by (simp add: resolve_def)
    then show ?thesis
    proof
      assume "c \<in> set (components [] account)"
      then have "c \<noteq> [] \<and> set c \<subseteq> set account"
        using components_chars[of c "[]" account] by simp
      then have "CHR ''.'' \<notin> set c" using nodot by auto
      then show ?thesis by auto
    next
      assume "\<exists>pre. c = pre @ ''.json''"
      then obtain pre where "c = pre @ ''.json''" ..
      then have "length c \<ge> 5" by simp
      then show ?thesis by auto
    qed
  qed
  show "''.'' \<notin> set (resolve (take 2 account @ CHR ''/'' # account @ ''.json''))"
    using a b split by auto
  show "''..'' \<notin> set (resolve (take 2 account @ CHR ''/'' # account @ ''.json''))"
    using a b split by auto
  have "resolve (account @ ''.json'') \<noteq> []"
  proof -
    have "components [] (account @ ''.json'') \<noteq> []"
      by (rule components_suffix_nonempty) simp_all
    then show ?thesis by (simp add: resolve_def)
  qed
  then show "resolve (take 2 account @ CHR ''/'' # account @ ''.json'') \<noteq> []"
    using split by simp
qed

text \<open>
  C6, as the claim states it, fails: the character class of the check holds \<open>/\<close>, so
  the name \<open>ab/cd\<close> passes the check, \<open>_get_account\<close> does not raise
  \<open>InvalidAccountName\<close> for it, and the file it derives lies one level below the
  directory of the first two characters.
\<close>

theorem slash_name_accepted:
  "CHR ''/'' \<in> set ''ab/cd'' \<and> p_check_account_name ''ab/cd'' = Inr ()
   \<and> fst (p_get_account demo_wallet demo_fs ''ab/cd'') \<noteq> Inl InvalidAccountName
   \<and> resolve (snd (p_get_account_paths ''w'' ''ab/cd'')) = [''w'', ''ab'', ''ab'', ''cd.json'']"
  by (simp add: p_check_account_name_def b64_charset_def p_get_account_paths_def resolve_def
      p_get_account_def os_path_isfile_def lookup_def demo_fs_def demo_wallet_def ensure_dir_def
      os_path_exists_def os_mkdir_def json_dump_file_def key_generate_def)

text \<open>
  C6, amended. A name that passes the check holds characters of the base64 set only,
  \<open>/\<close> among them; the file path that \<open>_get_account\<close> and \<open>_save_account\<close> derive
  from it is the store root followed by at least one more component, none of which is
  \<open>.\<close> or \<open>..\<close>: the path stays below the store root, at whatever depth the
  slashes of the name give it.
\<close>

theorem checked_name_path_below_root:
  assumes "p_check_account_name account = Inr ()"
  shows "(\<exists>rest. resolve (snd (p_get_account_paths root account)) = resolve root @ rest
            \<and> rest \<noteq> [] \<and> ''.'' \<notin> set rest \<and> ''..'' \<notin> set rest)
       \<and> (\<exists>rest. resolve (snd (p_save_account_paths root account)) = resolve root @ rest
            \<and> rest \<noteq> [] \<and> ''.'' \<notin> set rest \<and> ''..'' \<notin> set rest)"
proof (cases "account = []")
  case True
  then show ?thesis
    by (simp add: p_get_account_paths_def p_save_account_paths_def resolve_slash)
      (simp add: resolve_def)
next
  case False
  have ok: "\<forall>c \<in> set account. b64_charset c"
    using assms by (rule checked_name_chars)
  let ?rest = "resolve (take 2 account @ CHR ''/'' # account @ ''.json'')"
  have sharded: "resolve (root @ ''/'' @ take 2 account @ ''/'' @ account @ ''.json'')
      = resolve root @ ?rest"
    by (simp add: resolve_slash)
  have rest: "?rest \<noteq> [] \<and> ''.'' \<notin> set ?rest \<and> ''..'' \<notin> set ?rest"
    using account_components_no_dots[OF ok False] by simp
  have dflt: "resolve (root @ ''/default.json'') = resolve root @ [''default.json'']"
    by (simp add: resolve_slash) (simp add: resolve_def)
  have save: "\<exists>rest. resolve (snd (p_save_account_paths root account)) = resolve root @ rest
            \<and> rest \<noteq> [] \<and> ''.'' \<notin> set rest \<and> ''..'' \<notin> set rest"
    using False sharded rest by (simp add: p_save_account_paths_def Let_def)
  have get: "\<exists>rest. resolve (snd (p_get_account_paths root account)) = resolve root @ rest
            \<and> rest \<noteq> [] \<and> ''.'' \<notin> set rest \<and> ''..'' \<notin> set rest"
  proof (cases "account = ''default''")
    case True
    then show ?thesis using dflt by (simp add: p_get_account_paths_def)
  next
    case ndef: False
    have "snd (p_get_account_paths root account)
        = root @ ''/'' @ take 2 account @ ''/'' @ account @ ''.json''"
      using False ndef by (auto simp: p_get_account_paths_def Let_def)
    then show ?thesis using sharded rest by metis
  qed
  from get save show ?thesis ..
qed

theorem checked_name_path_below_root_witness:
  "p_check_account_name ''ab/cd'' = Inr ()
   \<and> (\<exists>rest. resolve (snd (p_get_account_paths ''w'' ''ab/cd'')) = resolve ''w'' @ rest
            \<and> rest \<noteq> [] \<and> ''.'' \<notin> set rest \<and> ''..'' \<notin> set rest)
   \<and> (\<exists>rest. resolve (snd (p_save_account_paths ''w'' ''ab/cd'')) = resolve ''w'' @ rest
            \<and> rest \<noteq> [] \<and> ''.'' \<notin> set rest \<and> ''..'' \<notin> set rest)"
proof -
  have h: "p_check_account_name ''ab/cd'' = Inr ()"
    by (simp add: p_check_account_name_def b64_charset_def)
  show ?thesis
    using h checked_name_path_below_root [OF h, of "''w''"] by simp
qed

subsection \<open>Opening a store\<close>

text \<open>
  C2 at the failing input: \<open>Wallet('w', verbose=False)\<close> on a file system without
  \<open>w\<close>. Both \<open>os.mkdir\<close> and the creation of the two index files stand inside
  \<open>if self.verbose:\<close>, so nothing is created and \<open>index\<close> stays \<open>None\<close>; with
  \<open>verbose=True\<close> the directory and both files are created.
\<close>

theorem init_without_verbose_creates_nothing:
  "Wallet_init ''w'' False demo_key demo_keygen [] = (Inr (), demo_wallet\<lparr>index := None\<rparr>, [])
   \<and> Wallet_init ''w'' True demo_key demo_keygen []
       = (Inr (), demo_wallet\<lparr>verbose := True\<rparr>, demo_fs)"
  by (simp add: Wallet_init_def load_def demo_wallet_def demo_fs_def p_save_rindex_def
      os_path_exists_def os_mkdir_def json_dump_file_def lookup_def resolve_def)

subsection \<open>The two names of the default account\<close>

text \<open>
  C3 at the failing input: \<open>get_new_address('default')\<close> on a store whose default
  account holds the address \<open>A9\<close>. \<open>_get_account\<close> reads \<open>w/default.json\<close>, and
  \<open>_save_account\<close>, which knows the empty name only, writes the record with the new
  address to \<open>w/de/default.json\<close>: \<open>w/default.json\<close> keeps its one address.
\<close>

theorem default_name_saved_to_shard:
  "get_new_address demo_wallet_default demo_fs_default ''default''
   = (Inr ''A0'',
      demo_wallet\<lparr>key := demo_keygen 0, generated := 1,
                   address_to_account := [(''A9'', []), (''A0'', ''default'')]\<rparr>,
      [([''w''], Dir),
       ([''w'', ''index.json''], File (Doc (IndexDoc version False))),
       ([''w'', ''rindex.json''], File (Doc (RIndexDoc [(''A9'', []), (''A0'', ''default'')]))),
       ([''w'', ''default.json''], File (Doc (AccountDoc False [[''A9'', ''P9'', ''Q9'']]))),
       ([''w'', ''de''], Dir),
       ([''w'', ''de'', ''default.json''],
        File (Doc (AccountDoc False [[''A9'', ''P9'', ''Q9''], [''A0'', ''P0'', ''Q0'']])))])"
  by (simp add: get_new_address_def p_get_account_def p_save_account_def p_save_rindex_def
      p_check_account_name_def b64_charset_def p_get_account_paths_def p_save_account_paths_def
      key_generate_def os_path_exists_def os_path_isfile_def os_mkdir_def json_dump_file_def
      json_load_file_def lookup_def resolve_def ensure_dir_def
      demo_wallet_default_def demo_fs_default_def demo_wallet_def demo_keygen_def)

subsection \<open>The invariant of the reverse index under the name default\<close>

text \<open>
  C7 at the failing input: two calls of \<open>get_new_address('default')\<close> on the store
  whose default account holds \<open>A9\<close>. The invariant holds before and after the first
  call, which returns \<open>A0\<close> and writes it to \<open>w/de/default.json\<close>. The second call
  reads \<open>w/default.json\<close> again, which never got \<open>A0\<close>, and overwrites
  \<open>w/de/default.json\<close> with the addresses \<open>A9\<close> and \<open>A1\<close>: \<open>A0\<close> is still a
  key of the reverse index and is in no account record any more.
\<close>

theorem second_default_address_breaks_invariant:
  "(case get_new_address demo_wallet_default demo_fs_default ''default'' of
      (r1, w1, fs1) \<Rightarrow>
        (case get_new_address w1 fs1 ''default'' of
           (r2, w2, fs2) \<Rightarrow>
             rindex_invariant demo_wallet_default demo_fs_default
             \<and> r1 = Inr ''A0'' \<and> rindex_invariant w1 fs1
             \<and> r2 = Inr ''A1'' \<and> \<not> rindex_invariant w2 fs2
             \<and> get_account w2 ''A0'' = Inr ''default''
             \<and> ''A0'' \<notin> set (file_addresses fs2)))"
  by (auto simp add: get_new_address_def p_get_account_def p_save_account_def p_save_rindex_def
      p_check_account_name_def b64_charset_def p_get_account_paths_def p_save_account_paths_def
      key_generate_def os_path_exists_def os_path_isfile_def os_mkdir_def json_dump_file_def
      json_load_file_def lookup_def resolve_def ensure_dir_def get_account_def
      rindex_invariant_def file_addresses_def entry_addresses_def
      demo_wallet_default_def demo_fs_default_def demo_wallet_def demo_keygen_def)

subsection \<open>Keys of an address\<close>

lemma p_get_account_existing:
  assumes "p_check_account_name name = Inr ()"
      and "lookup fs (resolve (snd (p_get_account_paths (path w) name))) = Some (File (Doc d))"
  shows "p_get_account w fs name = (Inr d, w, fs)"
  using assms by (simp add: p_get_account_def os_path_isfile_def json_load_file_def)

lemmas demo_default_defs = p_check_account_name_def p_get_account_paths_def lookup_def resolve_def
  demo_wallet_default_def demo_fs_default_def demo_wallet_def

text \<open>
  C4, as the claim states it, fails: with the entry \<open>[A9, P9, Q9]\<close> stored for the
  address \<open>A9\<close>, \<open>dump_privkey\<close> returns \<open>Q9\<close>, the element at the place of the
  public key of the triple, and not \<open>P9\<close>.
\<close>

theorem dump_privkey_returns_public_key:
  "p_get_keys_for_address demo_wallet_default demo_fs_default ''A9''
     = (Inr [''A9'', ''P9'', ''Q9''], demo_wallet_default, demo_fs_default)
   \<and> fst (dump_privkey demo_wallet_default demo_fs_default ''A9'')
       = Inr (entry_public_key [''A9'', ''P9'', ''Q9''])
   \<and> fst (dump_privkey demo_wallet_default demo_fs_default ''A9'')
       \<noteq> Inr (entry_private_key [''A9'', ''P9'', ''Q9''])"
  by (simp add: dump_privkey_def p_get_keys_for_address_def p_get_account_def getitem2_def
      getitem_addresses_def os_path_isfile_def json_load_file_def entry_public_key_def
      entry_private_key_def demo_default_defs)

lemma find_keys_skip:
  "list_all (\<lambda>k. k \<noteq> [] \<and> k ! 0 \<noteq> addr) pre \<Longrightarrow>
   find_keys (pre @ rest) addr = find_keys rest addr"
  by (induction pre) (auto split: list.splits)

lemma find_keys_first:
  assumes "list_all (\<lambda>k. k \<noteq> [] \<and> k ! 0 \<noteq> addr) pre"
  shows "keys \<noteq> [] \<Longrightarrow> keys ! 0 = addr \<Longrightarrow> find_keys (pre @ keys # post) addr = Some keys"
    and "find_keys (pre @ [] # post) addr = None"
    and "find_keys pre addr = None"
proof -
  show "keys \<noteq> [] \<Longrightarrow> keys ! 0 = addr \<Longrightarrow> find_keys (pre @ keys # post) addr = Some keys"
    using find_keys_skip[OF assms, of "keys # post"] by (cases keys) auto
  show "find_keys (pre @ [] # post) addr = None"
    using find_keys_skip[OF assms, of "[] # post"] by simp
  show "find_keys pre addr = None"
    using find_keys_skip[OF assms, of "[]"] by simp
qed

text \<open>
  C4, amended. For an address that the reverse index maps to an account whose record is
  stored, \<open>_get_keys_for_address\<close> goes through the entries in their order. When the
  entries before the first one whose element 0 is the address are all non-empty, it
  returns that first entry, and \<open>dump_privkey\<close> returns its element at index 2, or
  raises \<open>IndexError\<close> when the entry has fewer than three elements. When an empty
  entry comes before any entry with the address, or no entry has the address, both
  raise \<open>UnknownnAddress\<close>. Neither changes the wallet object or the file system.
\<close>

theorem dump_privkey_first_entry:
  assumes "map_of (address_to_account w) addr = Some name"
      and "p_check_account_name name = Inr ()"
      and "lookup fs (resolve (snd (p_get_account_paths (path w) name)))
             = Some (File (Doc (AccountDoc e a)))"
      and "list_all (\<lambda>k. k \<noteq> [] \<and> k ! 0 \<noteq> addr) pre"
  shows "(a = pre @ keys # post \<and> keys \<noteq> [] \<and> keys ! 0 = addr \<longrightarrow>
            p_get_keys_for_address w fs addr = (Inr keys, w, fs)
          \<and> dump_privkey w fs addr
              = ((if length keys > 2 then Inr (keys ! 2) else Inl IndexError), w, fs))
       \<and> (a = pre @ [] # post \<longrightarrow>
            p_get_keys_for_address w fs addr = (Inl UnknownnAddress, w, fs)
          \<and> dump_privkey w fs addr = (Inl UnknownnAddress, w, fs))
       \<and> (a = pre \<longrightarrow>
            p_get_keys_for_address w fs addr = (Inl UnknownnAddress, w, fs)
          \<and> dump_privkey w fs addr = (Inl UnknownnAddress, w, fs))"
proof -
  have g: "p_get_account w fs name = (Inr (AccountDoc e a), w, fs)"
    using assms(2,3) by (rule p_get_account_existing)
  have k: "p_get_keys_for_address w fs addr
      = (case find_keys a addr of None \<Rightarrow> (Inl UnknownnAddress, w, fs)
         | Some keys \<Rightarrow> (Inr keys, w, fs))"
    using assms(1) g by (simp add: p_get_keys_for_address_def getitem_addresses_def)
  show ?thesis
    using find_keys_first[OF assms(4)]
    by (auto simp: k dump_privkey_def getitem2_def)
qed

theorem dump_privkey_first_entry_witness:
  "map_of (address_to_account demo_wallet_default) ''A9'' = Some []
   \<and> p_check_account_name [] = Inr ()
   \<and> lookup demo_fs_keys (resolve (snd (p_get_account_paths (path demo_wallet_default) [])))
       = Some (File (Doc (AccountDoc False
           ([[''B1'', ''P1'', ''Q1'']] @ [''A9'', ''P9'', ''Q9''] # [[''A9'', ''PX'', ''QX'']]))))
   \<and> list_all (\<lambda>k. k \<noteq> [] \<and> k ! 0 \<noteq> ''A9'') [[''B1'', ''P1'', ''Q1'']]
   \<and> p_get_keys_for_address demo_wallet_default demo_fs_keys ''A9''
       = (Inr [''A9'', ''P9'', ''Q9''], demo_wallet_default, demo_fs_keys)
   \<and> dump_privkey demo_wallet_default demo_fs_keys ''A9''
       = (Inr ''Q9'', demo_wallet_default, demo_fs_keys)"
proof -
  have h1: "map_of (address_to_account demo_wallet_default) ''A9'' = Some []"
    by (simp add: demo_wallet_default_def)
  have h2: "p_check_account_name [] = Inr ()"
    by (simp add: p_check_account_name_def)
  have h3: "lookup demo_fs_keys (resolve (snd (p_get_account_paths (path demo_wallet_default) [])))
       = Some (File (Doc (AccountDoc False
           ([[''B1'', ''P1'', ''Q1'']] @ [''A9'', ''P9'', ''Q9''] # [[''A9'', ''PX'', ''QX'']]))))"
    by (simp add: p_get_account_paths_def lookup_def resolve_def demo_wallet_default_def
        demo_wallet_def demo_fs_keys_def)
  have h4: "list_all (\<lambda>k. k \<noteq> [] \<and> k ! 0 \<noteq> ''A9'') [[''B1'', ''P1'', ''Q1'']]"
    by simp
  show ?thesis
    using h1 h2 h3 h4
      dump_privkey_first_entry [OF h1 h2 h3 h4, of "[''A9'', ''P9'', ''Q9'']" "[[''A9'', ''PX'', ''QX'']]"]
    by simp
qed

subsection \<open>The first address of an account\<close>

text \<open>
  C9. For a stored account record, \<open>get_account_address\<close> raises \<open>IndexError\<close>,
  which is none of the exceptions of the module, when the list of addresses is empty; it
  returns a value only when the list has a first entry and that entry a first element,
  which is the value then. The state is left as it was.
\<close>

theorem get_account_address_needs_address:
  assumes "p_check_account_name account = Inr ()"
      and "lookup fs (resolve (snd (p_get_account_paths (path w) account)))
             = Some (File (Doc (AccountDoc e a)))"
  shows "(a = [] \<longrightarrow> get_account_address w fs account = (Inl IndexError, w, fs))
       \<and> (\<forall>x. fst (get_account_address w fs account) = Inr x \<longrightarrow> a \<noteq> [] \<and> hd a \<noteq> [] \<and> x = hd (hd a))
       \<and> (a \<noteq> [] \<and> hd a \<noteq> [] \<longrightarrow> get_account_address w fs account = (Inr (hd (hd a)), w, fs))"
proof -
  have g: "p_get_account w fs account = (Inr (AccountDoc e a), w, fs)"
    using assms by (rule p_get_account_existing)
  show ?thesis
    using g
    by (auto simp: get_account_address_def getitem_addresses_def getitem0_def
        split: list.splits)
qed

theorem get_account_address_needs_address_witness:
  "p_check_account_name [] = Inr ()
   \<and> lookup demo_fs_empty_account (resolve (snd (p_get_account_paths (path demo_wallet) [])))
       = Some (File (Doc (AccountDoc False [])))
   \<and> get_account_address demo_wallet demo_fs_empty_account []
       = (Inl IndexError, demo_wallet, demo_fs_empty_account)"
proof -
  have h1: "p_check_account_name [] = Inr ()"
    by (simp add: p_check_account_name_def)
  have h2: "lookup demo_fs_empty_account (resolve (snd (p_get_account_paths (path demo_wallet) [])))
       = Some (File (Doc (AccountDoc False [])))"
    by (simp add: p_get_account_paths_def lookup_def resolve_def demo_fs_empty_account_def
        demo_wallet_def)
  show ?thesis
    using h1 h2 get_account_address_needs_address [OF h1 h2] by simp
qed

subsection \<open>Loading a store without reverse index\<close>

lemma reindex_demo_fs_index_account:
  "reindex demo_wallet demo_fs_index_account
     = (Inr True, demo_wallet,
        demo_fs_index_account @ [([''w'', ''rindex.json''], File (Doc (RIndexDoc [])))])"
proof -
  have d1: "direct_dirs demo_fs_index_account [''w''] = [''in'']"
    by (simp add: direct_dirs_def demo_fs_index_account_def)
  have d2: "direct_dirs demo_fs_index_account [''w'', ''in''] = []"
    by (simp add: direct_dirs_def demo_fs_index_account_def)
  have f1: "direct_files demo_fs_index_account [''w'']
      = [(''index.json'', Doc (IndexDoc version False))]"
    by (simp add: direct_files_def demo_fs_index_account_def)
  have f2: "direct_files demo_fs_index_account [''w'', ''in'']
      = [(''index.json'', Doc (AccountDoc False [[''I1'', ''P1'', ''Q1'']]))]"
    by (simp add: direct_files_def demo_fs_index_account_def)
  have w2: "walk demo_fs_index_account [''w'', ''in'']
      = direct_files demo_fs_index_account [''w'', ''in'']"
    by (subst walk.simps) (simp add: d2)
  have w1: "walk demo_fs_index_account [''w'']
      = direct_files demo_fs_index_account [''w'']
        @ direct_files demo_fs_index_account [''w'', ''in'']"
    by (subst walk.simps) (simp add: d1 w2)
  have root: "lookup demo_fs_index_account [''w''] = Some Dir"
    by (simp add: lookup_def demo_fs_index_account_def)
  have p: "p_parse_accounts (demo_wallet\<lparr>address_to_account := []\<rparr>) demo_fs_index_account = []"
    by (simp add: p_parse_accounts_def os_walk_files_def demo_wallet_def resolve_def root w1 f1 f2
        parse_file_def splitext_def lower_def lower_char_def)
  show ?thesis
    by (simp add: reindex_def p)
      (simp add: p_save_rindex_def json_dump_file_def lookup_def resolve_def
        demo_wallet_def demo_fs_index_account_def)
qed

text \<open>
  C10, as the claim states it, fails twice. In a store with an \<open>index.json\<close> that does
  not parse and no \<open>rindex.json\<close>, \<open>load\<close> raises \<open>JSONDecodeError\<close>. And
  \<open>reindex\<close> does not bring back every address: the file of the account \<open>index\<close>
  is \<open>w/in/index.json\<close>, which \<open>_parse_accounts\<close> passes over by its name, so the
  address \<open>I1\<close> of that account stays unknown after \<open>load\<close> and \<open>reindex\<close>.
\<close>

theorem load_unparsable_index_raises:
  "lookup demo_fs_bad_index (resolve (path demo_wallet @ ''/index.json''))
     = Some (File Unparsable)
   \<and> lookup demo_fs_bad_index (resolve (path demo_wallet @ ''/rindex.json'')) = None
   \<and> load demo_wallet demo_fs_bad_index
       = (Inl JSONDecodeError, demo_wallet, demo_fs_bad_index)
   \<and> p_check_account_name ''index'' = Inr ()
   \<and> resolve (snd (p_get_account_paths (path demo_wallet) ''index''))
       = [''w'', ''in'', ''index.json'']
   \<and> lookup demo_fs_index_account (resolve (path demo_wallet @ ''/rindex.json'')) = None
   \<and> load demo_wallet demo_fs_index_account = (Inr (), demo_wallet, demo_fs_index_account)
   \<and> ''I1'' \<in> set (file_addresses demo_fs_index_account)
   \<and> get_account (fst (snd (reindex demo_wallet demo_fs_index_account))) ''I1''
       = Inl UnknownnAddress"
  by (simp add: reindex_demo_fs_index_account get_account_def)
    (simp add: load_def os_path_exists_def json_load_file_def lookup_def resolve_def
      p_check_account_name_def b64_charset_def p_get_account_paths_def
      file_addresses_def entry_addresses_def
      demo_wallet_def demo_fs_bad_index_def demo_fs_index_account_def)

text \<open>
  C10, amended. When \<open>index.json\<close> is a file that parses and \<open>rindex.json\<close> is
  absent or does not parse, \<open>load\<close> returns without exception, with the empty reverse
  index in the wallet object and the file system untouched, and \<open>get_account\<close> raises
  \<open>UnknownnAddress\<close> for every address afterwards, also for the addresses in account
  files. In the example store the address \<open>A9\<close> is in an account file, and after
  \<open>reindex\<close> it resolves to the default account.
\<close>

theorem load_without_rindex:
  assumes "lookup fs (resolve (path w @ ''/index.json'')) = Some (File (Doc d))"
      and "lookup fs (resolve (path w @ ''/rindex.json'')) = None
           \<or> lookup fs (resolve (path w @ ''/rindex.json'')) = Some (File Unparsable)"
  shows "load w fs = (Inr (), w\<lparr>index := Some d, address_to_account := []\<rparr>, fs)
       \<and> (\<forall>addr. get_account (fst (snd (load w fs))) addr = Inl UnknownnAddress)"
  using assms
  by (auto simp: load_def os_path_exists_def json_load_file_def get_account_def)

lemma reindex_demo_fs_no_rindex:
  "reindex demo_wallet demo_fs_no_rindex
     = (Inr True, demo_wallet\<lparr>address_to_account := [(''A9'', [])]\<rparr>,
        demo_fs_no_rindex @ [([''w'', ''rindex.json''], File (Doc (RIndexDoc [(''A9'', [])])))])"
proof -
  have d: "direct_dirs demo_fs_no_rindex [''w''] = []"
    by (simp add: direct_dirs_def demo_fs_no_rindex_def)
  have f: "direct_files demo_fs_no_rindex [''w'']
      = [(''index.json'', Doc (IndexDoc version False)),
         (''default.json'', Doc (AccountDoc False [[''A9'', ''P9'', ''Q9'']]))]"
    by (simp add: direct_files_def demo_fs_no_rindex_def)
  have w: "walk demo_fs_no_rindex [''w''] = direct_files demo_fs_no_rindex [''w'']"
    by (subst walk.simps) (simp add: d)
  have root: "lookup demo_fs_no_rindex [''w''] = Some Dir"
    by (simp add: lookup_def demo_fs_no_rindex_def)
  have p: "p_parse_accounts (demo_wallet\<lparr>address_to_account := []\<rparr>) demo_fs_no_rindex
      = [([], AccountDoc False [[''A9'', ''P9'', ''Q9'']])]"
    by (simp add: p_parse_accounts_def os_walk_files_def demo_wallet_def resolve_def root w f
        parse_file_def splitext_def lower_def lower_char_def)
  show ?thesis
    by (simp add: reindex_def p reindex_account_def getitem_addresses_def)
      (simp add: p_save_rindex_def json_dump_file_def lookup_def resolve_def
        demo_wallet_def demo_fs_no_rindex_def)
qed

theorem load_without_rindex_witness:
  "lookup demo_fs_no_rindex (resolve (path demo_wallet @ ''/index.json''))
     = Some (File (Doc (IndexDoc version False)))
   \<and> lookup demo_fs_no_rindex (resolve (path demo_wallet @ ''/rindex.json'')) = None
   \<and> ''A9'' \<in> set (file_addresses demo_fs_no_rindex)
   \<and> load demo_wallet demo_fs_no_rindex = (Inr (), demo_wallet, demo_fs_no_rindex)
   \<and> get_account (fst (snd (load demo_wallet demo_fs_no_rindex))) ''A9'' = Inl UnknownnAddress
   \<and> get_account (fst (snd (reindex demo_wallet demo_fs_no_rindex))) ''A9'' = Inr []"
proof -
  have ri: "get_account (fst (snd (reindex demo_wallet demo_fs_no_rindex))) ''A9'' = Inr []"
    by (simp add: reindex_demo_fs_no_rindex get_account_def)
  have h1: "lookup demo_fs_no_rindex (resolve (path demo_wallet @ ''/index.json''))
     = Some (File (Doc (IndexDoc version False)))"
    by (simp add: lookup_def resolve_def demo_fs_no_rindex_def demo_wallet_def)
  have h2: "lookup demo_fs_no_rindex (resolve (path demo_wallet @ ''/rindex.json'')) = None"
    by (simp add: lookup_def resolve_def demo_fs_no_rindex_def demo_wallet_def)
  have h3: "''A9'' \<in> set (file_addresses demo_fs_no_rindex)"
    by (simp add: file_addresses_def entry_addresses_def demo_fs_no_rindex_def)
  have same: "demo_wallet\<lparr>index := Some (IndexDoc version False), address_to_account := []\<rparr>
      = demo_wallet"
    by (simp add: demo_wallet_def)
  have t: "load demo_wallet demo_fs_no_rindex
        = (Inr (), demo_wallet\<lparr>index := Some (IndexDoc version False), address_to_account := []\<rparr>,
           demo_fs_no_rindex)
      \<and> (\<forall>addr. get_account (fst (snd (load demo_wallet demo_fs_no_rindex))) addr
            = Inl UnknownnAddress)"
    using load_without_rindex [of demo_fs_no_rindex demo_wallet, OF h1 disjI1, OF h2] .
  then have "get_account (fst (snd (load demo_wallet demo_fs_no_rindex))) ''A9''
      = Inl UnknownnAddress"
    by blast
  with t h1 h2 h3 same ri show ?thesis
    by simp
qed

subsection \<open>Rebuilding the reverse index\<close>

text \<open>
  Writing a file that \<open>_parse_accounts\<close> passes over, in the place of a file or as a
  new file, does not change what \<open>_parse_accounts\<close> yields.
\<close>

lemma map_filter_append: "List.map_filter f (xs @ ys) = List.map_filter f xs @ List.map_filter f ys"
  by (simp add: List.map_filter_def)

lemma map_filter_concat:
  "List.map_filter f (concat xss) = concat (map (List.map_filter f) xss)"
  by (induction xss) (simp_all add: map_filter_append)

lemma map_filter_update_hidden:
  assumes new: "h (k, v) = None"
      and old: "\<And>u. map_of fs k = Some u \<Longrightarrow> h (k, u) = None"
  shows "List.map_filter h (AList.update k v fs) = List.map_filter h fs"
  using old
proof (induction fs)
  case Nil
  then show ?case using new by simp
next
  case (Cons p fs)
  obtain a b where p: "p = (a, b)" by (cases p)
  show ?case
  proof (cases "a = k")
    case True
    then have "h (k, b) = None" using Cons.prems[of b] p by simp
    with True p new show ?thesis by simp
  next
    case False
    then have "\<And>u. map_of fs k = Some u \<Longrightarrow> h (k, u) = None"
      using Cons.prems p by simp
    then have "List.map_filter h (AList.update k v fs) = List.map_filter h fs"
      by (rule Cons.IH)
    with False p show ?thesis by (simp split: option.split)
  qed
qed

lemma map_filter_comp:
  "List.map_filter f (List.map_filter g xs)
     = List.map_filter (\<lambda>x. case g x of None \<Rightarrow> None | Some y \<Rightarrow> f y) xs"
  by (induction xs) (simp_all split: option.split)

lemma direct_dirs_update_file:
  assumes "map_of fs k \<noteq> Some Dir"
  shows "direct_dirs (AList.update k (File c) fs) d = direct_dirs fs d"
  unfolding direct_dirs_def
proof (rule map_filter_update_hidden)
  fix u assume "map_of fs k = Some u"
  with assms have "u \<noteq> Dir" by auto
  then show "(case snd (k, u) of
          Dir \<Rightarrow> if fst (k, u) \<noteq> [] \<and> butlast (fst (k, u)) = d then Some (last (fst (k, u))) else None
        | File c \<Rightarrow> None) = None"
    by (cases u) simp_all
qed simp

lemma direct_files_update_skipped:
  assumes skip: "\<And>x. parse_file (last k, x) = None"
  shows "List.map_filter parse_file (direct_files (AList.update k (File c) fs) d)
      = List.map_filter parse_file (direct_files fs d)"
  unfolding direct_files_def map_filter_comp
  by (rule map_filter_update_hidden) (auto simp: skip split: node.splits)

lemma walk_update_skipped:
  assumes skip: "\<And>x. parse_file (last k, x) = None"
  shows "map_of fs k \<noteq> Some Dir \<Longrightarrow>
    List.map_filter parse_file (walk (AList.update k (File c) fs) d)
      = List.map_filter parse_file (walk fs d)"
proof (induction fs d rule: walk.induct)
  case (1 fs d)
  let ?fs' = "AList.update k (File c) fs"
  have dirs: "direct_dirs ?fs' d = direct_dirs fs d"
    using "1.prems" by (rule direct_dirs_update_file)
  have files: "List.map_filter parse_file (direct_files ?fs' d)
      = List.map_filter parse_file (direct_files fs d)"
    using skip by (rule direct_files_update_skipped)
  have sub: "map (\<lambda>n. List.map_filter parse_file (walk ?fs' (d @ [n]))) (direct_dirs fs d)
      = map (\<lambda>n. List.map_filter parse_file (walk fs (d @ [n]))) (direct_dirs fs d)"
    using "1.IH" "1.prems" by (intro map_cong refl) simp
  have "List.map_filter parse_file (walk ?fs' d)
      = List.map_filter parse_file (direct_files ?fs' d)
        @ concat (map (\<lambda>n. List.map_filter parse_file (walk ?fs' (d @ [n]))) (direct_dirs ?fs' d))"
    by (subst walk.simps) (simp add: map_filter_append map_filter_concat comp_def)
  also have "\<dots> = List.map_filter parse_file (direct_files fs d)
        @ concat (map (\<lambda>n. List.map_filter parse_file (walk fs (d @ [n]))) (direct_dirs fs d))"
    unfolding dirs files sub ..
  also have "\<dots> = List.map_filter parse_file (walk fs d)"
    by (subst (2) walk.simps) (simp add: map_filter_append map_filter_concat comp_def)
  finally show ?case .
qed


lemma rindex_skipped: "parse_file (''rindex.json'', x) = None"
  by (simp add: parse_file_def splitext_def lower_def lower_char_def)

lemma resolve_rindex: "resolve (p @ ''/rindex.json'') = resolve p @ [''rindex.json'']"
  by (simp add: resolve_slash) (simp add: resolve_def)

lemma p_save_rindex_result:
  assumes "p_save_rindex w fs = Inr fs'"
  shows "fs' = AList.update (resolve (path w) @ [''rindex.json''])
                 (File (Doc (RIndexDoc (address_to_account w)))) fs
       \<and> map_of fs (resolve (path w) @ [''rindex.json'']) \<noteq> Some Dir"
  using assms
  by (auto simp: p_save_rindex_def json_dump_file_def resolve_rindex lookup_def
      split: option.splits node.splits)

lemma p_parse_accounts_after_save:
  assumes save: "p_save_rindex w fs = Inr fs'" and same: "path w' = path w"
  shows "p_parse_accounts w' fs' = p_parse_accounts w fs"
proof -
  let ?k = "resolve (path w) @ [''rindex.json'']"
  let ?v = "File (Doc (RIndexDoc (address_to_account w)))"
  from save have fs': "fs' = AList.update ?k ?v fs" and nd: "map_of fs ?k \<noteq> Some Dir"
    using p_save_rindex_result by blast+
  have skip: "\<And>x. parse_file (last ?k, x) = None"
    by (simp add: rindex_skipped)
  have look: "lookup fs' (resolve (path w)) = lookup fs (resolve (path w))"
    by (simp add: lookup_def fs' update_conv')
  have "List.map_filter parse_file (walk fs' (resolve (path w)))
      = List.map_filter parse_file (walk fs (resolve (path w)))"
    unfolding fs' using skip nd by (rule walk_update_skipped)
  then show ?thesis
    using look same
    by (simp add: p_parse_accounts_def os_walk_files_def split: option.splits node.splits)
qed

lemma p_save_rindex_again:
  assumes "p_save_rindex w fs = Inr fs'"
  shows "p_save_rindex w fs' = Inr fs'"
proof -
  let ?k = "resolve (path w) @ [''rindex.json'']"
  let ?v = "File (Doc (RIndexDoc (address_to_account w)))"
  from assms have fs': "fs' = AList.update ?k ?v fs"
    using p_save_rindex_result by blast
  then have "lookup fs' ?k = Some ?v"
    by (simp add: lookup_def update_conv')
  then show ?thesis
    by (simp add: p_save_rindex_def json_dump_file_def resolve_rindex fs')
qed

text \<open>
  C8. Whatever a call of \<open>reindex\<close> returns and leaves behind, a second call right
  after it returns the same and leaves the same wallet object and the same file
  system: the reverse index in memory is the same, and \<open>rindex.json\<close> holds the same
  document (or, when it could not be written, is as absent or unwritable as before).
\<close>

theorem reindex_idempotent:
  assumes "reindex w fs = (r, w', fs')"
  shows "reindex w' fs' = (r, w', fs')"
proof -
  let ?w1 = "w\<lparr>address_to_account := []\<rparr>"
  let ?w2 = "?w1\<lparr>address_to_account :=
              foldl reindex_account (address_to_account ?w1) (p_parse_accounts ?w1 fs)\<rparr>"
  have w': "w' = ?w2"
    using assms by (auto simp: reindex_def Let_def split: sum.splits)
  show ?thesis
  proof (cases "p_save_rindex ?w2 fs")
    case (Inl e)
    with assms have "fs' = fs" "r = Inl e"
      by (auto simp: reindex_def Let_def)
    moreover have "p_parse_accounts (?w2\<lparr>address_to_account := []\<rparr>) fs = p_parse_accounts ?w1 fs"
      by (simp add: p_parse_accounts_def)
    ultimately show ?thesis
      using Inl w' by (simp add: reindex_def Let_def)
  next
    case (Inr fs1)
    with assms have eq: "fs' = fs1" "r = Inr True"
      by (auto simp: reindex_def Let_def)
    have "p_parse_accounts (?w2\<lparr>address_to_account := []\<rparr>) fs1 = p_parse_accounts ?w2 fs"
      using Inr by (rule p_parse_accounts_after_save) simp
    also have "\<dots> = p_parse_accounts ?w1 fs"
      by (simp add: p_parse_accounts_def)
    finally have parse: "p_parse_accounts (?w2\<lparr>address_to_account := []\<rparr>) fs1
        = p_parse_accounts ?w1 fs" .
    have again: "p_save_rindex ?w2 fs1 = Inr fs1"
      using Inr by (rule p_save_rindex_again)
    show ?thesis
      using parse again eq w' by (simp add: reindex_def Let_def)
  qed
qed

lemma parse_demo_fs_two:
  "p_parse_accounts demo_wallet demo_fs_two
     = [([], AccountDoc False [[''A9'', ''P9'', ''Q9'']]),
        (''AbCdEf12'', AccountDoc False [[''B1'', ''P1'', ''Q1''], [''B2'', ''P2'', ''Q2'']])]"
proof -
  have d1: "direct_dirs demo_fs_two [''w''] = [''Ab'']"
    by (simp add: direct_dirs_def demo_fs_two_def)
  have d2: "direct_dirs demo_fs_two [''w'', ''Ab''] = []"
    by (simp add: direct_dirs_def demo_fs_two_def)
  have f1: "direct_files demo_fs_two [''w'']
      = [(''index.json'', Doc (IndexDoc version False)), (''rindex.json'', Doc (RIndexDoc [])),
         (''default.json'', Doc (AccountDoc False [[''A9'', ''P9'', ''Q9'']]))]"
    by (simp add: direct_files_def demo_fs_two_def)
  have f2: "direct_files demo_fs_two [''w'', ''Ab'']
      = [(''AbCdEf12.json'',
          Doc (AccountDoc False [[''B1'', ''P1'', ''Q1''], [''B2'', ''P2'', ''Q2'']]))]"
    by (simp add: direct_files_def demo_fs_two_def)
  have w2: "walk demo_fs_two [''w'', ''Ab''] = direct_files demo_fs_two [''w'', ''Ab'']"
    by (subst walk.simps) (simp add: d2)
  have w1: "walk demo_fs_two [''w'']
      = direct_files demo_fs_two [''w''] @ direct_files demo_fs_two [''w'', ''Ab'']"
    by (subst walk.simps) (simp add: d1 w2)
  have root: "lookup demo_fs_two [''w''] = Some Dir"
    by (simp add: lookup_def demo_fs_two_def)
  show ?thesis
    by (simp add: p_parse_accounts_def os_walk_files_def demo_wallet_def resolve_def root w1 f1 f2
        parse_file_def splitext_def lower_def lower_char_def)
qed

lemma reindex_demo_fs_two:
  "reindex demo_wallet demo_fs_two
     = (Inr True,
        demo_wallet\<lparr>address_to_account :=
          [(''A9'', []), (''B1'', ''AbCdEf12''), (''B2'', ''AbCdEf12'')]\<rparr>,
        demo_fs_two_reindexed)"
proof -
  have p: "p_parse_accounts (demo_wallet\<lparr>address_to_account := []\<rparr>) demo_fs_two
      = p_parse_accounts demo_wallet demo_fs_two"
    by (simp add: p_parse_accounts_def)
  show ?thesis
    by (simp add: reindex_def p parse_demo_fs_two reindex_account_def getitem_addresses_def)
      (simp add: p_save_rindex_def json_dump_file_def lookup_def resolve_def
        demo_wallet_def demo_fs_two_def demo_fs_two_reindexed_def)
qed

theorem reindex_idempotent_witness:
  "reindex demo_wallet demo_fs_two
     = (Inr True,
        demo_wallet\<lparr>address_to_account :=
          [(''A9'', []), (''B1'', ''AbCdEf12''), (''B2'', ''AbCdEf12'')]\<rparr>,
        demo_fs_two_reindexed)
   \<and> reindex (demo_wallet\<lparr>address_to_account :=
          [(''A9'', []), (''B1'', ''AbCdEf12''), (''B2'', ''AbCdEf12'')]\<rparr>) demo_fs_two_reindexed
     = (Inr True,
        demo_wallet\<lparr>address_to_account :=
          [(''A9'', []), (''B1'', ''AbCdEf12''), (''B2'', ''AbCdEf12'')]\<rparr>,
        demo_fs_two_reindexed)"
  using reindex_demo_fs_two reindex_idempotent [OF reindex_demo_fs_two] by simp

subsection \<open>A new address resolves to its account\<close>

lemma p_save_account_wallet:
  "p_save_account w fs d account = (r, w', fs') \<Longrightarrow> w' = w"
  by (auto simp: p_save_account_def Let_def split: sum.splits)

lemma new_address_registered:
  assumes "get_new_address w fs account = (Inr a, w', fs')"
  shows "get_account w' a = Inr account"
proof -
  obtain r1 w1 fs1 where g: "p_get_account w fs account = (r1, w1, fs1)"
    by (cases "p_get_account w fs account") auto
  with assms obtain e0 a0 where r1: "r1 = Inr (AccountDoc e0 a0)"
    by (auto simp: get_new_address_def Let_def split: sum.splits doc.splits)
  let ?w2 = "key_generate w1"
  obtain r3 w3 fs2 where s: "p_save_account ?w2 fs1 (AccountDoc e0 (a0 @ [as_list (key ?w2)])) account
      = (r3, w3, fs2)"
    by (cases "p_save_account ?w2 fs1 (AccountDoc e0 (a0 @ [as_list (key ?w2)])) account") auto
  then have w3: "w3 = ?w2" by (rule p_save_account_wallet)
  let ?w4 = "w3\<lparr>address_to_account :=
      AList.update (address (key w3)) account (address_to_account w3)\<rparr>"
  from assms g r1 s have "a = address (key ?w4) \<and> w' = ?w4"
    by (auto simp: get_new_address_def Let_def split: sum.splits)
  then show ?thesis
    by (simp add: get_account_def update_conv')
qed


lemma resolve_no_slash: "CHR ''/'' \<notin> set s \<Longrightarrow> s \<noteq> [] \<Longrightarrow> resolve s = [s]"
  by (simp add: resolve_def components_no_slash)

lemma lookup_append_new:
  "map_of fs k' = None \<Longrightarrow> k' \<noteq> [] \<Longrightarrow>
   lookup (fs @ [(k', n)]) k = (if k = k' then Some n else lookup fs k)"
  by (auto simp: lookup_def map_add_def split: option.splits)

lemma lookup_update:
  "k' \<noteq> [] \<Longrightarrow> lookup (AList.update k' n fs) k = (if k = k' then Some n else lookup fs k)"
  by (simp add: lookup_def update_conv')

lemma ensure_dir_ok:
  assumes "p \<noteq> []"
      and "lookup fs (resolve p) = Some Dir
           \<or> (lookup fs (resolve p) = None \<and> lookup fs (butlast (resolve p)) = Some Dir)"
  shows "\<exists>fs1. ensure_dir fs p = Inr fs1
           \<and> (\<forall>k. lookup fs1 k = (if k = resolve p then Some Dir else lookup fs k))"
  using assms(2)
proof
  assume "lookup fs (resolve p) = Some Dir"
  then show ?thesis using assms(1) by (auto simp: ensure_dir_def os_path_exists_def)
next
  assume a: "lookup fs (resolve p) = None \<and> lookup fs (butlast (resolve p)) = Some Dir"
  then have ne: "resolve p \<noteq> []" and none: "map_of fs (resolve p) = None"
    by (auto simp: lookup_def split: if_splits)
  have "ensure_dir fs p = Inr (fs @ [(resolve p, Dir)])"
    using a assms(1) by (simp add: ensure_dir_def os_path_exists_def os_mkdir_def)
  then show ?thesis
    using lookup_append_new[OF none ne] by simp
qed

lemma json_dump_file_ok:
  assumes "(\<exists>c. lookup fs (resolve f) = Some (File c))
           \<or> (lookup fs (resolve f) = None \<and> lookup fs (butlast (resolve f)) = Some Dir)"
  shows "\<exists>fs1. json_dump_file fs f d = Inr fs1
           \<and> (\<forall>k. lookup fs1 k = (if k = resolve f then Some (File (Doc d)) else lookup fs k))"
proof -
  from assms have ne: "resolve f \<noteq> []"
    by (auto simp: lookup_def split: if_splits)
  from assms have "json_dump_file fs f d = Inr (AList.update (resolve f) (File (Doc d)) fs)"
    by (auto simp: json_dump_file_def)
  then show ?thesis
    using lookup_update[OF ne] by simp
qed


lemma p_save_rindex_ok:
  assumes "lookup fs (resolve (path w)) = Some Dir"
      and "lookup fs (resolve (path w) @ [''rindex.json'']) = None
           \<or> (\<exists>c. lookup fs (resolve (path w) @ [''rindex.json'']) = Some (File c))"
  shows "\<exists>fs1. p_save_rindex w fs = Inr fs1
           \<and> (\<forall>k. lookup fs1 k = (if k = resolve (path w) @ [''rindex.json'']
                                   then Some (File (Doc (RIndexDoc (address_to_account w))))
                                   else lookup fs k))"
proof -
  have "(\<exists>c. lookup fs (resolve (path w @ ''/rindex.json'')) = Some (File c))
      \<or> (lookup fs (resolve (path w @ ''/rindex.json'')) = None
          \<and> lookup fs (butlast (resolve (path w @ ''/rindex.json''))) = Some Dir)"
    using assms by (auto simp: resolve_rindex)
  from json_dump_file_ok[OF this, of "RIndexDoc (address_to_account w)"]
  show ?thesis
    by (simp add: p_save_rindex_def resolve_rindex)
qed

lemma sharded_paths:
  assumes "2 \<le> length account" and "\<forall>c\<in>set account. b64_charset c \<and> c \<noteq> CHR ''/''"
  shows "resolve (path w @ ''/'' @ take 2 account) = resolve (path w) @ [take 2 account]"
    and "resolve ((path w @ ''/'' @ take 2 account) @ ''/'' @ account @ ''.json'')
           = resolve (path w) @ [take 2 account, account @ ''.json'']"
proof -
  have sub: "set (take 2 account) \<subseteq> set account"
    by (rule set_take_subset)
  have a1: "CHR ''/'' \<notin> set (take 2 account)"
    using sub assms(2) by blast
  have a2: "take 2 account \<noteq> []"
    using assms(1) by (cases account) simp_all
  have b1: "CHR ''/'' \<notin> set (account @ ''.json'')"
    using assms(2) by auto
  have b2: "account @ ''.json'' \<noteq> []"
    by simp
  have ra: "resolve (take 2 account) = [take 2 account]"
    using a1 a2 by (rule resolve_no_slash)
  have rb: "resolve (account @ ''.json'') = [account @ ''.json'']"
    using b1 b2 by (rule resolve_no_slash)
  have e1: "path w @ ''/'' @ take 2 account = path w @ CHR ''/'' # take 2 account"
    by simp
  show "resolve (path w @ ''/'' @ take 2 account) = resolve (path w) @ [take 2 account]"
    unfolding e1 resolve_slash ra ..
  have e2: "(path w @ ''/'' @ take 2 account) @ ''/'' @ account @ ''.json''
      = (path w @ CHR ''/'' # take 2 account) @ CHR ''/'' # (account @ ''.json'')"
    by simp
  show "resolve ((path w @ ''/'' @ take 2 account) @ ''/'' @ account @ ''.json'')
           = resolve (path w) @ [take 2 account, account @ ''.json'']"
    unfolding e2 resolve_slash ra rb by simp
qed

lemma valid_name_check:
  assumes "2 \<le> length account" and "length account \<le> 128"
      and "\<forall>c\<in>set account. b64_charset c \<and> c \<noteq> CHR ''/''"
  shows "p_check_account_name account = Inr ()"
  using assms by (auto simp: p_check_account_name_def list_ex_iff)

lemma p_save_account_ok:
  assumes check: "p_check_account_name account = Inr ()"
      and paths: "p_save_account_paths (path w) account = (dir, fname)"
      and "dir \<noteq> []"
      and parent: "butlast (resolve fname) = resolve dir"
      and neq: "resolve fname \<noteq> resolve dir"
      and D: "lookup fs (resolve dir) = Some Dir
              \<or> (lookup fs (resolve dir) = None \<and> lookup fs (butlast (resolve dir)) = Some Dir)"
      and F: "lookup fs (resolve fname) = None \<or> (\<exists>c. lookup fs (resolve fname) = Some (File c))"
  shows "\<exists>fs2. p_save_account w fs d account = (Inr True, w, fs2)
           \<and> (\<forall>k. lookup fs2 k = (if k = resolve fname then Some (File (Doc d))
                                   else if k = resolve dir then Some Dir else lookup fs k))"
proof -
  from ensure_dir_ok[OF \<open>dir \<noteq> []\<close> D]
  obtain fs1 where e: "ensure_dir fs dir = Inr fs1"
    and l1: "\<And>k. lookup fs1 k = (if k = resolve dir then Some Dir else lookup fs k)"
    by blast
  have "(\<exists>c. lookup fs1 (resolve fname) = Some (File c))
      \<or> (lookup fs1 (resolve fname) = None \<and> lookup fs1 (butlast (resolve fname)) = Some Dir)"
    using F neq parent by (auto simp: l1)
  from json_dump_file_ok[OF this, of d]
  obtain fs2 where w: "json_dump_file fs1 fname d = Inr fs2"
    and l2: "\<And>k. lookup fs2 k = (if k = resolve fname then Some (File (Doc d)) else lookup fs1 k)"
    by blast
  have "p_save_account w fs d account = (Inr True, w, fs2)"
    using check paths e w by (simp add: p_save_account_def)
  then show ?thesis
    using l1 l2 by auto
qed


lemma p_get_account_ok:
  assumes check: "p_check_account_name account = Inr ()"
      and paths: "p_get_account_paths (path w) account = (dir, fname)"
      and "dir \<noteq> []"
      and parent: "butlast (resolve fname) = resolve dir"
      and neq: "resolve fname \<noteq> resolve dir" "resolve fname \<noteq> resolve (path w)"
        "resolve fname \<noteq> resolve (path w) @ [''rindex.json'']"
        "resolve dir \<noteq> resolve (path w) @ [''rindex.json'']"
      and R: "lookup fs (resolve (path w)) = Some Dir"
      and D: "lookup fs (resolve dir) = Some Dir
              \<or> (lookup fs (resolve dir) = None \<and> lookup fs (butlast (resolve dir)) = Some Dir)"
      and F: "lookup fs (resolve fname) = None
              \<or> (\<exists>e a. lookup fs (resolve fname) = Some (File (Doc (AccountDoc e a))))"
      and X: "lookup fs (resolve (path w) @ [''rindex.json'']) = None
              \<or> (\<exists>c. lookup fs (resolve (path w) @ [''rindex.json'']) = Some (File c))"
  shows "\<exists>e a w1 fs1. p_get_account w fs account = (Inr (AccountDoc e a), w1, fs1)
       \<and> path w1 = path w
       \<and> lookup fs1 (resolve fname) = Some (File (Doc (AccountDoc e a)))
       \<and> lookup fs1 (resolve (path w)) = Some Dir
       \<and> (lookup fs1 (resolve dir) = Some Dir
            \<or> (lookup fs1 (resolve dir) = None \<and> lookup fs1 (butlast (resolve dir)) = Some Dir))
       \<and> (lookup fs1 (resolve (path w) @ [''rindex.json'']) = None
            \<or> (\<exists>c. lookup fs1 (resolve (path w) @ [''rindex.json'']) = Some (File c)))"
  using F
proof
  assume none: "lookup fs (resolve fname) = None"
  let ?w1 = "key_generate w"
  let ?res = "AccountDoc False [as_list (key ?w1)]"
  let ?w2 = "?w1\<lparr>address_to_account :=
      AList.update (address (key ?w1)) account (address_to_account ?w1)\<rparr>"
  have pw: "path ?w2 = path w"
    by (simp add: key_generate_def)
  from ensure_dir_ok[OF \<open>dir \<noteq> []\<close> D]
  obtain fsA where e: "ensure_dir fs dir = Inr fsA"
    and l1: "\<And>k. lookup fsA k = (if k = resolve dir then Some Dir else lookup fs k)"
    by blast
  have "(\<exists>c. lookup fsA (resolve fname) = Some (File c))
      \<or> (lookup fsA (resolve fname) = None \<and> lookup fsA (butlast (resolve fname)) = Some Dir)"
    using none neq(1) parent by (simp add: l1)
  from json_dump_file_ok[OF this, of ?res]
  obtain fsB where d: "json_dump_file fsA fname ?res = Inr fsB"
    and l2: "\<And>k. lookup fsB k = (if k = resolve fname then Some (File (Doc ?res)) else lookup fsA k)"
    by blast
  have rB: "lookup fsB (resolve (path ?w2)) = Some Dir"
    using R neq(2) by (auto simp: pw l1 l2)
  have xB: "lookup fsB (resolve (path ?w2) @ [''rindex.json'']) = None
      \<or> (\<exists>c. lookup fsB (resolve (path ?w2) @ [''rindex.json'']) = Some (File c))"
    using X neq(3,4) by (auto simp: pw l1 l2)
  from p_save_rindex_ok[OF rB xB]
  obtain fsC where s: "p_save_rindex ?w2 fsB = Inr fsC"
    and l3: "\<And>k. lookup fsC k = (if k = resolve (path w) @ [''rindex.json'']
                 then Some (File (Doc (RIndexDoc (address_to_account ?w2)))) else lookup fsB k)"
    unfolding pw by blast
  have nf: "\<not> os_path_isfile fs fname"
    using none by (simp add: os_path_isfile_def)
  have "p_get_account w fs account = (Inr ?res, ?w2, fsC)"
    using check paths nf e d s by (simp add: p_get_account_def Let_def)
  moreover have "lookup fsC (resolve fname) = Some (File (Doc ?res))"
    using neq(3) by (simp add: l3 l2)
  moreover have "lookup fsC (resolve (path w)) = Some Dir"
    using R neq(2) by (auto simp: l3 l2 l1)
  moreover have "lookup fsC (resolve dir) = Some Dir"
    using neq(1,4) by (auto simp: l3 l2 l1)
  moreover have "\<exists>c. lookup fsC (resolve (path w) @ [''rindex.json'']) = Some (File c)"
    by (simp add: l3)
  ultimately show ?thesis
    using pw by blast
next
  assume "\<exists>e a. lookup fs (resolve fname) = Some (File (Doc (AccountDoc e a)))"
  then obtain e a where f: "lookup fs (resolve fname) = Some (File (Doc (AccountDoc e a)))"
    by blast
  then have "p_get_account w fs account = (Inr (AccountDoc e a), w, fs)"
    using check paths by (simp add: p_get_account_def os_path_isfile_def json_load_file_def)
  then show ?thesis
    using f R D X by blast
qed


lemma get_new_address_succeeds:
  assumes len: "2 \<le> length account" "length account \<le> 128"
      and chars: "\<forall>c\<in>set account. b64_charset c \<and> c \<noteq> CHR ''/''"
      and nd: "account \<noteq> ''default''"
      and R: "lookup fs (resolve (path w)) = Some Dir"
      and D: "lookup fs (resolve (path w) @ [take 2 account]) = None
              \<or> lookup fs (resolve (path w) @ [take 2 account]) = Some Dir"
      and F: "lookup fs (resolve (path w) @ [take 2 account, account @ ''.json'']) = None
              \<or> (\<exists>e a. lookup fs (resolve (path w) @ [take 2 account, account @ ''.json''])
                          = Some (File (Doc (AccountDoc e a))))"
      and X: "lookup fs (resolve (path w) @ [''rindex.json'']) = None
              \<or> (\<exists>c. lookup fs (resolve (path w) @ [''rindex.json'']) = Some (File c))"
  shows "\<exists>a w' fs'. get_new_address w fs account = (Inr a, w', fs')"
proof -
  define dir where "dir = path w @ ''/'' @ take 2 account"
  define fname where "fname = dir @ ''/'' @ account @ ''.json''"
  have ne: "account \<noteq> []" using len(1) by auto
  have check: "p_check_account_name account = Inr ()"
    using len chars by (rule valid_name_check)
  have gp: "p_get_account_paths (path w) account = (dir, fname)"
    using ne nd by (auto simp: p_get_account_paths_def Let_def dir_def fname_def)
  have kd: "resolve dir = resolve (path w) @ [take 2 account]"
    unfolding dir_def using len(1) chars by (rule sharded_paths(1))
  have kf: "resolve fname = resolve (path w) @ [take 2 account, account @ ''.json'']"
    unfolding fname_def dir_def using len(1) chars by (rule sharded_paths(2))
  have dne: "dir \<noteq> []" by (simp add: dir_def)
  have l2: "length (take 2 account) = 2" using len(1) by simp
  have adir: "take 2 account \<noteq> ''rindex.json''"
  proof
    assume "take 2 account = ''rindex.json''"
    then have "length (take 2 account) = length ''rindex.json''"
      by (rule arg_cong)
    then show False
      using l2 by simp
  qed
  have parent: "butlast (resolve fname) = resolve dir"
    by (simp add: kd kf butlast_append)
  have n1: "resolve fname \<noteq> resolve dir" by (simp add: kd kf)
  have n2: "resolve fname \<noteq> resolve (path w)" by (simp add: kf)
  have n3: "resolve fname \<noteq> resolve (path w) @ [''rindex.json'']" by (simp add: kf)
  have n4: "resolve dir \<noteq> resolve (path w) @ [''rindex.json'']" using adir by (simp add: kd)
  have n5: "resolve dir \<noteq> resolve (path w)" by (simp add: kd)
  have D': "lookup fs (resolve dir) = Some Dir
      \<or> (lookup fs (resolve dir) = None \<and> lookup fs (butlast (resolve dir)) = Some Dir)"
    using D R by (auto simp: kd)
  have F': "lookup fs (resolve fname) = None
      \<or> (\<exists>e a. lookup fs (resolve fname) = Some (File (Doc (AccountDoc e a))))"
    using F by (simp add: kf)
  from p_get_account_ok[OF check gp dne parent n1 n2 n3 n4 R D' F' X]
  obtain e a w1 fs1 where g: "p_get_account w fs account = (Inr (AccountDoc e a), w1, fs1)"
    and pw1: "path w1 = path w"
    and f1: "lookup fs1 (resolve fname) = Some (File (Doc (AccountDoc e a)))"
    and r1: "lookup fs1 (resolve (path w)) = Some Dir"
    and d1: "lookup fs1 (resolve dir) = Some Dir
            \<or> (lookup fs1 (resolve dir) = None \<and> lookup fs1 (butlast (resolve dir)) = Some Dir)"
    and x1: "lookup fs1 (resolve (path w) @ [''rindex.json'']) = None
            \<or> (\<exists>c. lookup fs1 (resolve (path w) @ [''rindex.json'']) = Some (File c))"
    by blast
  let ?w2 = "key_generate w1"
  let ?d = "AccountDoc e (a @ [as_list (key ?w2)])"
  have pw2: "path ?w2 = path w" by (simp add: key_generate_def pw1)
  have sp: "p_save_account_paths (path ?w2) account = (dir, fname)"
    using ne by (auto simp: p_save_account_paths_def Let_def dir_def fname_def pw2)
  have F1: "lookup fs1 (resolve fname) = None \<or> (\<exists>c. lookup fs1 (resolve fname) = Some (File c))"
    using f1 by simp
  from p_save_account_ok[OF check sp dne parent n1 d1 F1, of ?d]
  obtain fs2 where s: "p_save_account ?w2 fs1 ?d account = (Inr True, ?w2, fs2)"
    and l2: "\<And>k. lookup fs2 k = (if k = resolve fname then Some (File (Doc ?d))
                                   else if k = resolve dir then Some Dir else lookup fs1 k)"
    by blast
  let ?w4 = "?w2\<lparr>address_to_account :=
      AList.update (address (key ?w2)) account (address_to_account ?w2)\<rparr>"
  have pw4: "path ?w4 = path w" by (simp add: pw2)
  have r2: "lookup fs2 (resolve (path ?w4)) = Some Dir"
    using r1 n2 n5 by (simp add: pw4 l2)
  have x2: "lookup fs2 (resolve (path ?w4) @ [''rindex.json'']) = None
      \<or> (\<exists>c. lookup fs2 (resolve (path ?w4) @ [''rindex.json'']) = Some (File c))"
    using x1 n3 n4 by (simp add: pw4 l2)
  from p_save_rindex_ok[OF r2 x2]
  obtain fs3 where x: "p_save_rindex ?w4 fs2 = Inr fs3"
    by blast
  have "get_new_address w fs account = (Inr (address (key ?w4)), ?w4, fs3)"
    using g s x by (simp add: get_new_address_def Let_def)
  then show ?thesis by blast
qed

text \<open>
  C1. For an account name of 2 to 128 characters of the base64 set without \<open>/\<close>:
  whenever \<open>get_new_address\<close> returns an address, \<open>get_account\<close> on that address
  returns the account name. And it does return one, for every name but \<open>default\<close>,
  on a store whose root is a directory, where the shard directory of the account is a
  directory or absent, the account file holds an account record or is absent, and
  \<open>rindex.json\<close> is a file or absent. No assumption on the generated key is needed:
  the entry of the reverse index written last is the one \<open>get_account\<close> reads.
\<close>

theorem new_address_resolves:
  assumes "2 \<le> length account" and "length account \<le> 128"
      and "\<forall>c\<in>set account. b64_charset c \<and> c \<noteq> CHR ''/''"
  shows "(\<forall>a w' fs'. get_new_address w fs account = (Inr a, w', fs')
            \<longrightarrow> get_account w' a = Inr account)
       \<and> (account \<noteq> ''default''
            \<and> lookup fs (resolve (path w)) = Some Dir
            \<and> (lookup fs (resolve (path w) @ [take 2 account]) = None
                 \<or> lookup fs (resolve (path w) @ [take 2 account]) = Some Dir)
            \<and> (lookup fs (resolve (path w) @ [take 2 account, account @ ''.json'']) = None
                 \<or> (\<exists>e a. lookup fs (resolve (path w) @ [take 2 account, account @ ''.json''])
                             = Some (File (Doc (AccountDoc e a)))))
            \<and> (lookup fs (resolve (path w) @ [''rindex.json'']) = None
                 \<or> (\<exists>c. lookup fs (resolve (path w) @ [''rindex.json'']) = Some (File c)))
          \<longrightarrow> (\<exists>a w' fs'. get_new_address w fs account = (Inr a, w', fs')
                             \<and> get_account w' a = Inr account))"
proof (intro conjI allI impI)
  fix a w' fs'
  assume "get_new_address w fs account = (Inr a, w', fs')"
  then show "get_account w' a = Inr account"
    by (rule new_address_registered)
next
  assume h: "account \<noteq> ''default''
            \<and> lookup fs (resolve (path w)) = Some Dir
            \<and> (lookup fs (resolve (path w) @ [take 2 account]) = None
                 \<or> lookup fs (resolve (path w) @ [take 2 account]) = Some Dir)
            \<and> (lookup fs (resolve (path w) @ [take 2 account, account @ ''.json'']) = None
                 \<or> (\<exists>e a. lookup fs (resolve (path w) @ [take 2 account, account @ ''.json''])
                             = Some (File (Doc (AccountDoc e a)))))
            \<and> (lookup fs (resolve (path w) @ [''rindex.json'']) = None
                 \<or> (\<exists>c. lookup fs (resolve (path w) @ [''rindex.json'']) = Some (File c)))"
  have "\<exists>a w' fs'. get_new_address w fs account = (Inr a, w', fs')"
    using assms h by (intro get_new_address_succeeds) blast+
  then obtain a w' fs' where g: "get_new_address w fs account = (Inr a, w', fs')"
    by blast
  then have "get_account w' a = Inr account"
    by (rule new_address_registered)
  with g show "\<exists>a w' fs'. get_new_address w fs account = (Inr a, w', fs')
      \<and> get_account w' a = Inr account"
    by blast
qed

theorem new_address_resolves_witness:
  "2 \<le> length ''AbCdEf12'' \<and> length ''AbCdEf12'' \<le> 128
   \<and> list_all (\<lambda>c. b64_charset c \<and> c \<noteq> CHR ''/'') ''AbCdEf12''
   \<and> ''AbCdEf12'' \<noteq> ''default''
   \<and> lookup demo_fs (resolve (path demo_wallet)) = Some Dir
   \<and> lookup demo_fs (resolve (path demo_wallet) @ [take 2 ''AbCdEf12'']) = None
   \<and> lookup demo_fs (resolve (path demo_wallet) @ [take 2 ''AbCdEf12'', ''AbCdEf12'' @ ''.json''])
       = None
   \<and> lookup demo_fs (resolve (path demo_wallet) @ [''rindex.json''])
       = Some (File (Doc (RIndexDoc [])))
   \<and> (\<exists>a w' fs'. get_new_address demo_wallet demo_fs ''AbCdEf12'' = (Inr a, w', fs')
                    \<and> get_account w' a = Inr ''AbCdEf12'')"
proof -
  have h1: "2 \<le> length ''AbCdEf12''" by simp
  have h2: "length ''AbCdEf12'' \<le> 128" by simp
  have h3: "\<forall>c\<in>set ''AbCdEf12''. b64_charset c \<and> c \<noteq> CHR ''/''"
    by (simp add: b64_charset_def)
  have s: "''AbCdEf12'' \<noteq> ''default''
      \<and> lookup demo_fs (resolve (path demo_wallet)) = Some Dir
      \<and> lookup demo_fs (resolve (path demo_wallet) @ [take 2 ''AbCdEf12'']) = None
      \<and> lookup demo_fs (resolve (path demo_wallet) @ [take 2 ''AbCdEf12'', ''AbCdEf12'' @ ''.json''])
          = None
      \<and> lookup demo_fs (resolve (path demo_wallet) @ [''rindex.json''])
          = Some (File (Doc (RIndexDoc [])))"
    by (simp add: lookup_def resolve_def demo_fs_def demo_wallet_def)
  have "\<exists>a w' fs'. get_new_address demo_wallet demo_fs ''AbCdEf12'' = (Inr a, w', fs')
      \<and> get_account w' a = Inr ''AbCdEf12''"
    using new_address_resolves [OF h1 h2 h3, of demo_wallet demo_fs] s by blast
  moreover have "list_all (\<lambda>c. b64_charset c \<and> c \<noteq> CHR ''/'') ''AbCdEf12''"
    by (simp add: b64_charset_def)
  ultimately show ?thesis
    using h1 h2 s by blast
qed

end
